theory Spec2Isabelle
  imports Complex_Main "HOL-Library.Sublist"
begin

section \<open>The GraphSage stack of the node classification notebook\<close>

text \<open>
  The notebook \<^verbatim>\<open>basic_tasks/Node_classification.ipynb\<close> builds a GraphSage model
  from the graph library's \<^verbatim>\<open>SAGEConv\<close> layers, wraps it in a classification head with a
  cross-entropy loss, and trains it in a fixed-length loop. Its own code is the
  constructor and the forward loop of \<^verbatim>\<open>GraphSAGEModel\<close>, \<^verbatim>\<open>NodeClassification.forward\<close>,
  \<^verbatim>\<open>NCEvaluate\<close> and the training loop; these are embedded from the source. Tensor
  entries are read as real numbers.
\<close>

subsection \<open>Layer objects\<close>

text \<open>
  A \<^verbatim>\<open>SAGEConv\<close> object as the notebook constructs it: the two widths, the aggregator
  name, and the keyword arguments \<^verbatim>\<open>feat_drop\<close> and \<^verbatim>\<open>activation\<close>. The activation is any
  Python object or \<^verbatim>\<open>None\<close>, hence an option over a type parameter.
\<close>

record 'a sage_conv =
  in_src_feats :: nat
  out_feats :: nat
  aggre_type :: string
  feat_drop :: real
  activation :: "'a option"

definition SAGEConv :: "nat \<Rightarrow> nat \<Rightarrow> string \<Rightarrow> real \<Rightarrow> 'a option \<Rightarrow> 'a sage_conv" where
  "SAGEConv n_in n_out aggregator p act =
     \<lparr>in_src_feats = n_in, out_feats = n_out, aggre_type = aggregator,
      feat_drop = p, activation = act\<rparr>"

subsection \<open>\<^verbatim>\<open>GraphSAGEModel.__init__\<close>\<close>

text \<open>
  The loop \<^verbatim>\<open>for i in range(n_layers - 1): self.layers.append(...)\<close>, as a recursion on
  the number of iterations left; each iteration appends the same hidden layer.
\<close>

fun append_hidden :: "nat \<Rightarrow> 'a sage_conv \<Rightarrow> 'a sage_conv list \<Rightarrow> 'a sage_conv list" where
  "append_hidden 0 L layers = layers"
| "append_hidden (Suc k) L layers = append_hidden k L (layers @ [L])"

text \<open>
  The constructor: the module list starts empty, gets the input layer, the hidden
  layers of the loop, and the output layer. \<^verbatim>\<open>n_layers\<close> is a Python integer, and
  \<^verbatim>\<open>range\<close> of a non-positive number is empty.
\<close>

definition GraphSAGEModel ::
  "nat \<Rightarrow> nat \<Rightarrow> nat \<Rightarrow> int \<Rightarrow> 'a option \<Rightarrow> real \<Rightarrow> string \<Rightarrow> 'a sage_conv list" where
  "GraphSAGEModel in_feats n_hidden out_dim n_layers act dropout aggregator_type =
     (let layers = [];
          layers = layers @ [SAGEConv in_feats n_hidden aggregator_type dropout act];
          layers = append_hidden (nat (n_layers - 1))
                     (SAGEConv n_hidden n_hidden aggregator_type dropout act) layers;
          layers = layers @ [SAGEConv n_hidden out_dim aggregator_type dropout None]
      in layers)"

text \<open>The rectifier \<^verbatim>\<open>F.relu\<close> on one entry.\<close>

definition relu :: "real \<Rightarrow> real" where
  "relu x = max 0 x"

text \<open>
  The model of the notebook: \<^verbatim>\<open>n_hidden = 64\<close>, \<^verbatim>\<open>n_layers = 2\<close>, \<^verbatim>\<open>dropout = 0.5\<close>,
  \<^verbatim>\<open>aggregator_type = 'gcn'\<close>, activation \<^verbatim>\<open>F.relu\<close>. The input width and the number of
  classes come from the dataset.
\<close>

definition gconv_model :: "nat \<Rightarrow> nat \<Rightarrow> (real \<Rightarrow> real) sage_conv list" where
  "gconv_model in_feats n_classes =
     GraphSAGEModel in_feats 64 n_classes 2 (Some relu) (1 / 2) ''gcn''"

section \<open>Tensors, errors and the run state\<close>

text \<open>
  An embedding table is a list of rows, one per node; labels are class indices.
  Exceptions are values: \<^verbatim>\<open>IndexError\<close> for an index outside a tensor,
  \<^verbatim>\<open>ZeroDivisionError\<close> for Python's division by zero, \<^verbatim>\<open>RuntimeError\<close> for a
  reduction over an empty dimension. \<^verbatim>\<open>ShapeMismatch\<close>, \<^verbatim>\<open>OutOfRange\<close> and
  \<^verbatim>\<open>EmptySubset\<close> are error kinds named by the design document; no line of the notebook
  raises them.
\<close>

type_synonym table = "real list list"

datatype error =
  IndexError | ZeroDivisionError | RuntimeError | ShapeMismatch | OutOfRange | EmptySubset

text \<open>
  The value of a scalar float tensor such as the loss: a number, read as a real, or the
  float \<^verbatim>\<open>nan\<close>, which float arithmetic gives for \<^verbatim>\<open>0/0\<close> without raising anything.
\<close>

datatype scalar = Num real | NaN

text \<open>
  Indexing a tensor by an array of row numbers, \<^verbatim>\<open>x[idx]\<close>. The index arrays of the
  notebook come from \<^verbatim>\<open>np.where\<close>, so they hold natural numbers; a row number past the
  end raises.
\<close>

definition index_rows :: "'a list \<Rightarrow> nat list \<Rightarrow> error + 'a list" where
  "index_rows x idx =
     (if list_all (\<lambda>i. i < length x) idx then Inr (map (\<lambda>i. x ! i) idx) else Inl IndexError)"

text \<open>
  What \<^verbatim>\<open>model.train()\<close>, \<^verbatim>\<open>model.eval()\<close>, \<^verbatim>\<open>optimizer.zero_grad()\<close>,
  \<^verbatim>\<open>loss.backward()\<close>, \<^verbatim>\<open>optimizer.step()\<close> and \<^verbatim>\<open>print\<close> read and write: the learnable
  parameters, their gradient buffers, the optimizer's own state, the module's training
  flag, the global random generator, and the lines printed so far. The field \<open>trace\<close>
  is bookkeeping of the model, not data of the program: every call the code makes
  appends its event, so that the order of the calls can be stated. \<open>CallModel\<close> and
  \<open>CallNCEvaluate\<close> carry the subset they are called with, and \<open>CallLayer k\<close> is the
  call of the layer at position \<open>k\<close> of the stack.
\<close>

datatype event =
    ModelTrain
  | CallModel "nat list"
  | CallLayer nat
  | ZeroGrad
  | Backward
  | OptimizerStep
  | CallNCEvaluate "nat list"
  | ModelEval

datatype line = EpochLine nat scalar real | BlankLine | TestLine real

record ('p, 'd, 'o, 'r) run_state =
  params :: 'p
  grads :: 'd
  optim :: 'o
  training :: bool
  rng :: 'r
  stdout :: "line list"
  trace :: "event list"

text \<open>
  The libraries the notebook calls, as functions handed to the model. \<open>layer_call\<close> is
  one layer object applied to the graph and a table, \<^verbatim>\<open>layer(g, h)\<close>: it reads the
  training flag, the parameters (the layer's own, found by its position in the stack)
  and the random generator, and may raise. \<open>loss_fcn\<close> is the attribute
  \<^verbatim>\<open>self.loss_fcn\<close>. \<open>zero_grad\<close> clears the gradient buffers, \<open>backward\<close> accumulates
  the gradient of the loss just computed (a function of the parameters, the generator
  state the forward pass started from, and the subset) into them, and \<open>adam_step\<close> is
  one update of the optimizer.
\<close>

record ('a, 'g, 'p, 'd, 'o, 'r) lib =
  layer_call :: "bool \<Rightarrow> 'p \<Rightarrow> nat \<Rightarrow> 'a sage_conv \<Rightarrow> 'g \<Rightarrow> table \<Rightarrow> 'r \<Rightarrow> (error + table) \<times> 'r"
  loss_fcn :: "table \<Rightarrow> nat list \<Rightarrow> error + scalar"
  zero_grad :: "'d \<Rightarrow> 'd"
  backward :: "'p \<Rightarrow> 'r \<Rightarrow> nat list \<Rightarrow> 'd \<Rightarrow> 'd"
  adam_step :: "'o \<Rightarrow> 'p \<Rightarrow> 'd \<Rightarrow> 'p \<times> 'o"

definition log_event :: "event \<Rightarrow> ('p, 'd, 'o, 'r) run_state \<Rightarrow> ('p, 'd, 'o, 'r) run_state" where
  "log_event e s = s\<lparr>trace := trace s @ [e]\<rparr>"

definition print_line :: "line \<Rightarrow> ('p, 'd, 'o, 'r) run_state \<Rightarrow> ('p, 'd, 'o, 'r) run_state" where
  "print_line l s = s\<lparr>stdout := stdout s @ [l]\<rparr>"

definition model_train :: "('p, 'd, 'o, 'r) run_state \<Rightarrow> ('p, 'd, 'o, 'r) run_state" where
  "model_train s = log_event ModelTrain (s\<lparr>training := True\<rparr>)"

definition model_eval :: "('p, 'd, 'o, 'r) run_state \<Rightarrow> ('p, 'd, 'o, 'r) run_state" where
  "model_eval s = log_event ModelEval (s\<lparr>training := False\<rparr>)"

definition optimizer_zero_grad ::
  "('a, 'g, 'p, 'd, 'o, 'r) lib \<Rightarrow> ('p, 'd, 'o, 'r) run_state \<Rightarrow> ('p, 'd, 'o, 'r) run_state" where
  "optimizer_zero_grad lb s = log_event ZeroGrad (s\<lparr>grads := zero_grad lb (grads s)\<rparr>)"

definition loss_backward ::
  "('a, 'g, 'p, 'd, 'o, 'r) lib \<Rightarrow> 'r \<Rightarrow> nat list \<Rightarrow> ('p, 'd, 'o, 'r) run_state
   \<Rightarrow> ('p, 'd, 'o, 'r) run_state" where
  "loss_backward lb r0 idx s =
     log_event Backward (s\<lparr>grads := backward lb (params s) r0 idx (grads s)\<rparr>)"

definition optimizer_step ::
  "('a, 'g, 'p, 'd, 'o, 'r) lib \<Rightarrow> ('p, 'd, 'o, 'r) run_state \<Rightarrow> ('p, 'd, 'o, 'r) run_state" where
  "optimizer_step lb s =
     (case adam_step lb (optim s) (params s) (grads s) of
        (p', o') \<Rightarrow> log_event OptimizerStep (s\<lparr>params := p', optim := o'\<rparr>))"

subsection \<open>\<^verbatim>\<open>GraphSAGEModel.forward\<close>\<close>

text \<open>
  \<^verbatim>\<open>h = features; for layer in self.layers: h = layer(g, h); return h\<close>. The second
  argument counts the layers already applied. An exception in a layer ends the loop.
\<close>

fun forward_layers ::
  "('a, 'g, 'p, 'd, 'o, 'r) lib \<Rightarrow> nat \<Rightarrow> 'a sage_conv list \<Rightarrow> 'g \<Rightarrow> table
   \<Rightarrow> ('p, 'd, 'o, 'r) run_state \<Rightarrow> (error + table) \<times> ('p, 'd, 'o, 'r) run_state" where
  "forward_layers lb k [] g h s = (Inr h, s)"
| "forward_layers lb k (layer # layers) g h s =
     (case layer_call lb (training s) (params s) k layer g h (rng s) of
        (Inl e, r') \<Rightarrow> (Inl e, log_event (CallLayer k) (s\<lparr>rng := r'\<rparr>))
      | (Inr h', r') \<Rightarrow>
          forward_layers lb (Suc k) layers g h' (log_event (CallLayer k) (s\<lparr>rng := r'\<rparr>)))"

definition GraphSAGEModel_forward ::
  "('a, 'g, 'p, 'd, 'o, 'r) lib \<Rightarrow> 'a sage_conv list \<Rightarrow> 'g \<Rightarrow> table
   \<Rightarrow> ('p, 'd, 'o, 'r) run_state \<Rightarrow> (error + table) \<times> ('p, 'd, 'o, 'r) run_state" where
  "GraphSAGEModel_forward lb layers g features s = forward_layers lb 0 layers g features s"

subsection \<open>\<^verbatim>\<open>NodeClassification.forward\<close>\<close>

text \<open>
  \<^verbatim>\<open>logits = self.gconv_model(g, features)\<close>, then
  \<^verbatim>\<open>self.loss_fcn(logits[train_idx], labels[train_idx])\<close>, where \<^verbatim>\<open>labels\<close> is the
  notebook's global label tensor. The method checks nothing about \<^verbatim>\<open>train_idx\<close> itself.
\<close>

definition NodeClassification_forward ::
  "('a, 'g, 'p, 'd, 'o, 'r) lib \<Rightarrow> 'a sage_conv list \<Rightarrow> nat list \<Rightarrow> 'g \<Rightarrow> table \<Rightarrow> nat list
   \<Rightarrow> ('p, 'd, 'o, 'r) run_state \<Rightarrow> (error + scalar) \<times> ('p, 'd, 'o, 'r) run_state" where
  "NodeClassification_forward lb layers labels g features train_idx s =
     (case GraphSAGEModel_forward lb layers g features (log_event (CallModel train_idx) s) of
        (Inl e, s') \<Rightarrow> (Inl e, s')
      | (Inr logits, s') \<Rightarrow>
          (case index_rows logits train_idx of
             Inl e \<Rightarrow> (Inl e, s')
           | Inr rows \<Rightarrow>
               (case index_rows labels train_idx of
                  Inl e \<Rightarrow> (Inl e, s')
                | Inr ys \<Rightarrow> (loss_fcn lb rows ys, s'))))"

subsection \<open>\<^verbatim>\<open>NCEvaluate\<close>\<close>

text \<open>
  Modelled from the spec: the scan inside the library call \<^verbatim>\<open>torch.max(logits, dim=1)\<close>,
  whose code is not in the repository. The evaluator takes "the class of maximal score
  (ties broken by lowest class index, the natural behavior of arg-max)": the scan goes
  through a row from left to right and moves to a later class only for a strictly
  larger score. It carries the best score and its class so far and the number of the
  class read next.
\<close>

fun max_scan :: "real \<Rightarrow> nat \<Rightarrow> nat \<Rightarrow> real list \<Rightarrow> real \<times> nat" where
  "max_scan best cls k [] = (best, cls)"
| "max_scan best cls k (x # xs) =
     (if best < x then max_scan x k (Suc k) xs else max_scan best cls (Suc k) xs)"

text \<open>
  Modelled from the spec: \<^verbatim>\<open>torch.max\<close> on one row, the maximal score with its class. A
  row without classes has no maximum, and the reduction raises.
\<close>

definition row_max :: "real list \<Rightarrow> error + real \<times> nat" where
  "row_max row = (case row of [] \<Rightarrow> Inl RuntimeError | x # xs \<Rightarrow> Inr (max_scan x 0 1 xs))"

text \<open>
  Modelled from the spec: \<^verbatim>\<open>torch.max(logits, dim=1)\<close> on a table, row by row; the list of
  the classes is the tensor \<^verbatim>\<open>indices\<close> of the source.
\<close>

fun torch_max_dim1 :: "table \<Rightarrow> error + (real \<times> nat) list" where
  "torch_max_dim1 [] = Inr []"
| "torch_max_dim1 (row # rows) =
     (case row_max row of
        Inl e \<Rightarrow> Inl e
      | Inr m \<Rightarrow> (case torch_max_dim1 rows of Inl e \<Rightarrow> Inl e | Inr ms \<Rightarrow> Inr (m # ms)))"

text \<open>
  \<^verbatim>\<open>torch.sum(indices == test_labels)\<close>: the number of positions where the two
  equally long index vectors agree.
\<close>

definition count_equal :: "nat list \<Rightarrow> nat list \<Rightarrow> nat" where
  "count_equal indices test_labels =
     length (filter (\<lambda>(i, y). i = y) (zip indices test_labels))"

text \<open>
  The function itself. \<^verbatim>\<open>model.eval()\<close> comes first and is not undone; the last line,
  \<^verbatim>\<open>correct.item() * 1.0 / len(test_labels)\<close>, is Python's float division, which raises
  \<^verbatim>\<open>ZeroDivisionError\<close> on an empty subset.
\<close>

definition NCEvaluate ::
  "('a, 'g, 'p, 'd, 'o, 'r) lib \<Rightarrow> 'a sage_conv list \<Rightarrow> 'g \<Rightarrow> table \<Rightarrow> nat list \<Rightarrow> nat list
   \<Rightarrow> ('p, 'd, 'o, 'r) run_state \<Rightarrow> (error + real) \<times> ('p, 'd, 'o, 'r) run_state" where
  "NCEvaluate lb layers g features labels test_idx s =
     (case GraphSAGEModel_forward lb layers g features
             (model_eval (log_event (CallNCEvaluate test_idx) s)) of
        (Inl e, s') \<Rightarrow> (Inl e, s')
      | (Inr logits, s') \<Rightarrow>
          (case index_rows logits test_idx of
             Inl e \<Rightarrow> (Inl e, s')
           | Inr rows \<Rightarrow>
               (case index_rows labels test_idx of
                  Inl e \<Rightarrow> (Inl e, s')
                | Inr test_labels \<Rightarrow>
                    (case torch_max_dim1 rows of
                       Inl e \<Rightarrow> (Inl e, s')
                     | Inr ms \<Rightarrow>
                         (let indices = map snd ms;
                              correct = count_equal indices test_labels
                          in if length test_labels = 0 then (Inl ZeroDivisionError, s')
                             else (Inr (real correct * 1 / real (length test_labels)), s'))))))"

subsection \<open>The training loop\<close>

text \<open>
  One pass of the loop body for epoch number \<open>epoch\<close>: \<^verbatim>\<open>model.train()\<close>, the forward
  call \<^verbatim>\<open>model(g, features, train_idx)\<close>, \<^verbatim>\<open>optimizer.zero_grad()\<close>,
  \<^verbatim>\<open>loss.backward()\<close>, \<^verbatim>\<open>optimizer.step()\<close>, the validation call of \<^verbatim>\<open>NCEvaluate\<close>,
  and the printed line. An exception leaves the body at once, with the state as it is.
\<close>

definition train_epoch ::
  "('a, 'g, 'p, 'd, 'o, 'r) lib \<Rightarrow> 'a sage_conv list \<Rightarrow> 'g \<Rightarrow> table \<Rightarrow> nat list \<Rightarrow> nat list
   \<Rightarrow> nat list \<Rightarrow> nat \<Rightarrow> ('p, 'd, 'o, 'r) run_state
   \<Rightarrow> (error + unit) \<times> ('p, 'd, 'o, 'r) run_state" where
  "train_epoch lb layers g features labels train_idx val_idx epoch s =
     (let s1 = model_train s;
          r0 = rng s1
      in case NodeClassification_forward lb layers labels g features train_idx s1 of
           (Inl e, s2) \<Rightarrow> (Inl e, s2)
         | (Inr loss, s2) \<Rightarrow>
             (let s3 = optimizer_zero_grad lb s2;
                  s4 = loss_backward lb r0 train_idx s3;
                  s5 = optimizer_step lb s4
              in case NCEvaluate lb layers g features labels val_idx s5 of
                   (Inl e, s6) \<Rightarrow> (Inl e, s6)
                 | (Inr acc, s6) \<Rightarrow> (Inr (), print_line (EpochLine epoch loss acc) s6)))"

text \<open>\<^verbatim>\<open>for epoch in range(n_epochs): ...\<close> over the epoch numbers still to run.\<close>

fun epochs_loop ::
  "('a, 'g, 'p, 'd, 'o, 'r) lib \<Rightarrow> 'a sage_conv list \<Rightarrow> 'g \<Rightarrow> table \<Rightarrow> nat list \<Rightarrow> nat list
   \<Rightarrow> nat list \<Rightarrow> nat list \<Rightarrow> ('p, 'd, 'o, 'r) run_state
   \<Rightarrow> (error + unit) \<times> ('p, 'd, 'o, 'r) run_state" where
  "epochs_loop lb layers g features labels train_idx val_idx [] s = (Inr (), s)"
| "epochs_loop lb layers g features labels train_idx val_idx (epoch # epochs) s =
     (case train_epoch lb layers g features labels train_idx val_idx epoch s of
        (Inl e, s') \<Rightarrow> (Inl e, s')
      | (Inr u, s') \<Rightarrow> epochs_loop lb layers g features labels train_idx val_idx epochs s')"

text \<open>
  The whole cell: the loop over \<^verbatim>\<open>range(n_epochs)\<close>, the empty \<^verbatim>\<open>print()\<close>, the test
  call of \<^verbatim>\<open>NCEvaluate\<close> and the last printed line. The notebook sets
  \<^verbatim>\<open>n_epochs = 150\<close>.
\<close>

definition training_loop ::
  "('a, 'g, 'p, 'd, 'o, 'r) lib \<Rightarrow> 'a sage_conv list \<Rightarrow> 'g \<Rightarrow> table \<Rightarrow> nat list \<Rightarrow> nat list
   \<Rightarrow> nat list \<Rightarrow> nat list \<Rightarrow> int \<Rightarrow> ('p, 'd, 'o, 'r) run_state
   \<Rightarrow> (error + unit) \<times> ('p, 'd, 'o, 'r) run_state" where
  "training_loop lb layers g features labels train_idx val_idx test_idx n_epochs s =
     (case epochs_loop lb layers g features labels train_idx val_idx [0..<nat n_epochs] s of
        (Inl e, s') \<Rightarrow> (Inl e, s')
      | (Inr u, s') \<Rightarrow>
          (case NCEvaluate lb layers g features labels test_idx (print_line BlankLine s') of
             (Inl e, s'') \<Rightarrow> (Inl e, s'')
           | (Inr acc, s'') \<Rightarrow> (Inr (), print_line (TestLine acc) s'')))"

text \<open>
  The calls a run makes when nothing raises: a forward pass calls the layers in
  order, an evaluation is the call of \<^verbatim>\<open>NCEvaluate\<close>, \<^verbatim>\<open>model.eval()\<close> and a forward
  pass, an epoch is a training step followed by an evaluation on the validation
  subset, and a run is \<open>n\<close> epochs followed by one evaluation on the test subset.
\<close>

definition layer_events :: "'a sage_conv list \<Rightarrow> event list" where
  "layer_events layers = map CallLayer [0..<length layers]"

definition evaluate_events :: "'a sage_conv list \<Rightarrow> nat list \<Rightarrow> event list" where
  "evaluate_events layers idx = [CallNCEvaluate idx, ModelEval] @ layer_events layers"

definition epoch_events :: "'a sage_conv list \<Rightarrow> nat list \<Rightarrow> nat list \<Rightarrow> event list" where
  "epoch_events layers train_idx val_idx =
     [ModelTrain, CallModel train_idx] @ layer_events layers
     @ [ZeroGrad, Backward, OptimizerStep] @ evaluate_events layers val_idx"

definition run_events :: "'a sage_conv list \<Rightarrow> nat list \<Rightarrow> nat list \<Rightarrow> nat list \<Rightarrow> nat
   \<Rightarrow> event list" where
  "run_events layers train_idx val_idx test_idx n =
     concat (replicate n (epoch_events layers train_idx val_idx))
     @ evaluate_events layers test_idx"

section \<open>Library code, modelled from the design document\<close>

text \<open>
  The loss and the graph layer belong to the tensor library and the graph library; the
  notebook only constructs and calls them. Their definitions below follow the words of
  the design document (the spec).
\<close>

subsection \<open>The loss\<close>

text \<open>
  Modelled from the spec: the "numerically stabilized (log-sum-exp)" part of the
  library class \<^verbatim>\<open>torch.nn.CrossEntropyLoss\<close>, whose code is not in the repository. The
  stabilised form takes the largest score of the row out of the exponentials.
\<close>

definition log_sum_exp :: "real list \<Rightarrow> real" where
  "log_sum_exp xs = (let m = Max (set xs) in m + ln (sum_list (map (\<lambda>x. exp (x - m)) xs)))"

text \<open>
  Modelled from the spec: the "standard multi-class cross-entropy" of one row of
  scores against its label. A label that is no class of the row is out of bounds.
\<close>

definition row_loss :: "real list \<Rightarrow> nat \<Rightarrow> error + real" where
  "row_loss xs y = (if y < length xs then Inr (- (xs ! y) + log_sum_exp xs) else Inl IndexError)"

text \<open>
  Modelled from the spec: the losses of the rows of a batch, each against its label;
  the batch and the labels must be equally long.
\<close>

fun row_losses :: "table \<Rightarrow> nat list \<Rightarrow> error + real list" where
  "row_losses [] [] = Inr []"
| "row_losses (xs # rows) (y # ys) =
     (case row_loss xs y of
        Inl e \<Rightarrow> Inl e
      | Inr l \<Rightarrow> (case row_losses rows ys of Inl e \<Rightarrow> Inl e | Inr ls \<Rightarrow> Inr (l # ls)))"
| "row_losses rows ys = Inl ShapeMismatch"

text \<open>
  Modelled from the spec: \<^verbatim>\<open>torch.nn.CrossEntropyLoss()\<close> on a batch, the "scalar
  cross-entropy loss averaged over the subset": the sum of the losses of the rows
  divided by their number. This is a division of floats inside the tensor library, so
  on a batch without rows it is \<^verbatim>\<open>0/0\<close>, the float \<^verbatim>\<open>nan\<close>, and nothing is raised. The
  design document's "requires |subset| \<ge> 1; fails with EmptySubset otherwise" is a
  contract of the classification head, whose code is \<^verbatim>\<open>NodeClassification.forward\<close>
  above; the library loss has no such check.
\<close>

definition CrossEntropyLoss :: "table \<Rightarrow> nat list \<Rightarrow> error + scalar" where
  "CrossEntropyLoss rows ys =
     (case row_losses rows ys of
        Inl e \<Rightarrow> Inl e
      | Inr ls \<Rightarrow> if length ls = 0 then Inr NaN else Inr (Num (sum_list ls / real (length ls))))"

subsection \<open>The graph and the aggregation layer\<close>

text \<open>
  Modelled from the spec: the graph store, built by the graph library. It holds the
  node count and the "edge set as unordered pairs (u, v) meaning adjacency".
\<close>

record graph =
  num_nodes :: nat
  edges :: "(nat \<times> nat) list"

text \<open>
  Modelled from the spec: the invariant of the graph store, "every edge endpoint is a
  valid node index in [0, N)".
\<close>

definition valid_graph :: "graph \<Rightarrow> bool" where
  "valid_graph g = list_all (\<lambda>(a, b). a < num_nodes g \<and> b < num_nodes g) (edges g)"

text \<open>
  Modelled from the spec: the query of the graph store for "the set of neighbor node
  indices" of a node. An unordered pair makes each endpoint a neighbor of the other.
\<close>

fun neighbors_of :: "(nat \<times> nat) list \<Rightarrow> nat \<Rightarrow> nat list" where
  "neighbors_of [] v = []"
| "neighbors_of ((a, b) # es) v =
     (if a = v then [b] else []) @ (if b = v \<and> a \<noteq> b then [a] else []) @ neighbors_of es v"

definition neighbors :: "graph \<Rightarrow> nat \<Rightarrow> nat list" where
  "neighbors g v = neighbors_of (edges g) v"

text \<open>Modelled from the spec: "an isolated node (no edges)", a node no edge touches.\<close>

definition isolated :: "graph \<Rightarrow> nat \<Rightarrow> bool" where
  "isolated g v = list_all (\<lambda>(a, b). a \<noteq> v \<and> b \<noteq> v) (edges g)"

text \<open>
  The forward pass of the library layer \<^verbatim>\<open>SAGEConv\<close> is modelled under the aggregation
  policy the notebook configures, \<^verbatim>\<open>'gcn'\<close>; the layer's aggregator name is not
  inspected.

  Modelled from the spec: "an aggregate vector over the embeddings of v's direct
  neighbors", their sum over the input width \<open>d\<close>; "isolated nodes (no neighbors) use
  a zero aggregate".
\<close>

definition neighbor_aggregate :: "table \<Rightarrow> nat \<Rightarrow> nat list \<Rightarrow> real list" where
  "neighbor_aggregate h d nbrs = foldr (\<lambda>u acc. map2 (+) (h ! u) acc) nbrs (replicate d 0)"

text \<open>
  Modelled from the spec: the "'gcn'-style aggregate that additionally folds v's own
  embedding into the neighbor set before averaging", for a node with \<open>deg\<close>
  neighbors.
\<close>

definition gcn_combine :: "real list \<Rightarrow> real list \<Rightarrow> nat \<Rightarrow> real list" where
  "gcn_combine agg self deg = map (\<lambda>x. x / (real deg + 1)) (map2 (+) agg self)"

text \<open>Modelled from the spec: the "learned linear transform (weight matrix) plus bias".\<close>

definition linear :: "real list list \<Rightarrow> real list \<Rightarrow> real list \<Rightarrow> real list" where
  "linear W b x = map2 (\<lambda>row c. sum_list (map2 (*) row x) + c) W b"

text \<open>Modelled from the spec: the "optional nonlinearity", applied to every entry.\<close>

definition apply_activation :: "(real \<Rightarrow> real) option \<Rightarrow> real list \<Rightarrow> real list" where
  "apply_activation act z = (case act of None \<Rightarrow> z | Some f \<Rightarrow> map f z)"

text \<open>
  Modelled from the spec: the output row of one node, from the table the layer
  aggregates over and the layer's weight matrix and bias.
\<close>

definition gcn_node :: "(real \<Rightarrow> real) sage_conv \<Rightarrow> real list list \<times> real list \<Rightarrow> graph \<Rightarrow> table
   \<Rightarrow> nat \<Rightarrow> real list" where
  "gcn_node layer wb g h v =
     (let nbrs = neighbors g v;
          agg = neighbor_aggregate h (in_src_feats layer) nbrs;
          combined = gcn_combine agg (h ! v) (length nbrs)
      in apply_activation (activation layer) (linear (fst wb) (snd wb) combined))"

text \<open>
  Modelled from the spec: the layer on a whole table, "a pure function of input table +
  current parameters + graph topology, given a fixed dropout random state", with "an
  optional dropout mask applied to the input features during training only (disabled at
  evaluation time)". A table of the wrong shape "fails with a ShapeMismatch error", and
  an edge endpoint that is no node of the graph with \<^verbatim>\<open>OutOfRange\<close>. The random mask
  itself is the tensor library's: \<open>dropout_fn\<close> takes the probability, the table
  and the generator.
\<close>

definition SAGEConv_forward ::
  "(real \<Rightarrow> table \<Rightarrow> 'r \<Rightarrow> table \<times> 'r) \<Rightarrow> bool \<Rightarrow> real list list \<times> real list
   \<Rightarrow> (real \<Rightarrow> real) sage_conv \<Rightarrow> graph \<Rightarrow> table \<Rightarrow> 'r \<Rightarrow> (error + table) \<times> 'r" where
  "SAGEConv_forward dropout_fn tr wb layer g feat r =
     (if \<not> valid_graph g then (Inl OutOfRange, r)
      else if length feat \<noteq> num_nodes g
              \<or> \<not> list_all (\<lambda>row. length row = in_src_feats layer) feat
      then (Inl ShapeMismatch, r)
      else case (if tr then dropout_fn (feat_drop layer) feat r else (feat, r)) of
             (h, r') \<Rightarrow> (Inr (map (gcn_node layer wb g h) [0..<num_nodes g]), r'))"

subsection \<open>Predicates of the claims\<close>

text \<open>
  Class \<open>c\<close> is the lowest-indexed class of maximal score in a row: no score of the row
  is larger, and every earlier class has a strictly smaller one.
\<close>

definition is_lowest_argmax :: "real list \<Rightarrow> nat \<Rightarrow> bool" where
  "is_lowest_argmax row c =
     (c < length row \<and> list_all (\<lambda>x. x \<le> row ! c) row \<and> list_all (\<lambda>x. x < row ! c) (take c row))"

text \<open>
  A step that started in state \<open>s\<close> and ended with result and state \<open>r\<close> has made an
  initial part of the calls \<open>calls\<close>, in their order and nothing else, and all of them
  if it did not raise.
\<close>

definition made_calls ::
  "('p, 'd, 'o, 'r) run_state \<Rightarrow> event list \<Rightarrow> (error + 'x) \<times> ('p, 'd, 'o, 'r) run_state \<Rightarrow> bool" where
  "made_calls s calls r =
     (prefix (trace s) (trace (snd r)) \<and> prefix (trace (snd r)) (trace s @ calls)
      \<and> (\<not> isl (fst r) \<longrightarrow> trace (snd r) = trace s @ calls))"

text \<open>
  What one pass of the loop body has done to the state when it has not raised. The
  gradient buffers hold what \<^verbatim>\<open>backward\<close> accumulated, for the loss on the training
  subset, into the buffers \<^verbatim>\<open>zero_grad\<close> had cleared; the parameters and the
  optimizer's state are one update of the optimizer from the old ones and these
  gradients; and one line more is printed, with the number of the epoch, the loss the
  forward call returned in training mode on the training subset, and the accuracy an
  evaluation on the validation subset returned with the updated parameters.
\<close>

definition epoch_done ::
  "('a, 'g, 'p, 'd, 'o, 'r) lib \<Rightarrow> 'a sage_conv list \<Rightarrow> 'g \<Rightarrow> table \<Rightarrow> nat list \<Rightarrow> nat list
   \<Rightarrow> nat list \<Rightarrow> nat \<Rightarrow> ('p, 'd, 'o, 'r) run_state \<Rightarrow> ('p, 'd, 'o, 'r) run_state \<Rightarrow> bool" where
  "epoch_done lb layers g features labels train_idx val_idx epoch s s' =
     (grads s' = backward lb (params s) (rng s) train_idx (zero_grad lb (grads s))
      \<and> params s' = fst (adam_step lb (optim s) (params s) (grads s'))
      \<and> optim s' = snd (adam_step lb (optim s) (params s) (grads s'))
      \<and> (\<exists>loss acc s5.
            fst (NodeClassification_forward lb layers labels g features train_idx
                   (s\<lparr>training := True\<rparr>)) = Inr loss
            \<and> params s5 = params s'
            \<and> fst (NCEvaluate lb layers g features labels val_idx s5) = Inr acc
            \<and> stdout s' = stdout s @ [EpochLine epoch loss acc]))"

text \<open>
  The same for the epochs of a list, one after the other: each starts in the state
  the one before it ended in.
\<close>

inductive epochs_done ::
  "('a, 'g, 'p, 'd, 'o, 'r) lib \<Rightarrow> 'a sage_conv list \<Rightarrow> 'g \<Rightarrow> table \<Rightarrow> nat list \<Rightarrow> nat list
   \<Rightarrow> nat list \<Rightarrow> nat list \<Rightarrow> ('p, 'd, 'o, 'r) run_state \<Rightarrow> ('p, 'd, 'o, 'r) run_state \<Rightarrow> bool"
  for lb layers g features labels train_idx val_idx where
  no_epoch: "epochs_done lb layers g features labels train_idx val_idx [] s s"
| one_more: "epoch_done lb layers g features labels train_idx val_idx epoch s s1
     \<Longrightarrow> epochs_done lb layers g features labels train_idx val_idx epochs s1 s'
     \<Longrightarrow> epochs_done lb layers g features labels train_idx val_idx (epoch # epochs) s s'"

text \<open>
  The nodes within \<open>k\<close> hops of a node, for a graph type \<open>'g\<close> with neighbor lists
  \<open>nb\<close>; and the layers of a library reading one hop: when a layer is given two
  tables with equally many rows, the row it returns for a node is the same for both as
  soon as the two tables agree on the node and its neighbors (and the layer leaves the
  generator in the same state).
\<close>

fun hop_ball :: "('g \<Rightarrow> nat \<Rightarrow> nat list) \<Rightarrow> 'g \<Rightarrow> nat \<Rightarrow> nat \<Rightarrow> nat set" where
  "hop_ball nb g 0 v = {v}"
| "hop_ball nb g (Suc k) v = hop_ball nb g k v \<union> (\<Union>u \<in> hop_ball nb g k v. set (nb g u))"

definition one_hop_layers ::
  "('a, 'g, 'p, 'd, 'o, 'r) lib \<Rightarrow> ('g \<Rightarrow> nat \<Rightarrow> nat list) \<Rightarrow> bool" where
  "one_hop_layers lb nb =
     (\<forall>tr p k layer g h h' r out r1 out' r1'.
        layer_call lb tr p k layer g h r = (Inr out, r1)
        \<and> layer_call lb tr p k layer g h' r = (Inr out', r1')
        \<and> length h = length h'
        \<longrightarrow> r1 = r1' \<and> length out = length h \<and> length out' = length h
            \<and> (\<forall>v < length h. (\<forall>u \<in> insert v (set (nb g v)). h ! u = h' ! u)
                  \<longrightarrow> out ! v = out' ! v))"

section \<open>A small instance\<close>

text \<open>
  The chain of five nodes of the design document's end-to-end test, with
  two-dimensional one-hot features and two classes, a stack of two layers of width two
  with unit weights, a dropout stand-in that blanks the table and advances the
  generator, and an optimizer stand-in that shifts every bias by one. The concrete runs
  below are evaluated on it.
\<close>

definition chain_graph :: graph where
  "chain_graph = \<lparr>num_nodes = 5, edges = [(0, 1), (1, 2), (2, 3), (3, 4)]\<rparr>"

definition chain_features :: table where
  "chain_features = [[1, 0], [0, 1], [1, 0], [0, 1], [1, 0]]"

definition chain_labels :: "nat list" where
  "chain_labels = [0, 1, 0, 1, 0]"

definition small_model :: "(real \<Rightarrow> real) sage_conv list" where
  "small_model = GraphSAGEModel 2 2 2 1 (Some relu) (1 / 2) ''gcn''"

definition unit_weights :: "real \<Rightarrow> nat \<Rightarrow> real list list \<times> real list" where
  "unit_weights c k = ([[1, 0], [0, 1]], [c, c])"

definition blank_dropout :: "real \<Rightarrow> table \<Rightarrow> nat \<Rightarrow> table \<times> nat" where
  "blank_dropout p h r = (map (map (\<lambda>x. 0)) h, Suc r)"

definition small_lib ::
  "(real \<Rightarrow> real, graph, real, unit, nat, nat) lib" where
  "small_lib =
     \<lparr>layer_call = (\<lambda>tr c k layer g h r. SAGEConv_forward blank_dropout tr (unit_weights c k) layer g h r),
      loss_fcn = CrossEntropyLoss,
      zero_grad = (\<lambda>d. d),
      backward = (\<lambda>c r idx d. d),
      adam_step = (\<lambda>n c d. (c + 1, Suc n))\<rparr>"

definition small_state :: "nat \<Rightarrow> (real, unit, nat, nat) run_state" where
  "small_state r =
     \<lparr>params = 0, grads = (), optim = 0, training = True, rng = r, stdout = [], trace = []\<rparr>"

section \<open>Properties of the constructor\<close>

lemma append_hidden_replicate: "append_hidden k L layers = layers @ replicate k L"
proof (induction k arbitrary: layers)
  case 0
  show ?case by simp
next
  case (Suc k)
  have "append_hidden (Suc k) L layers = (layers @ [L]) @ replicate k L"
    using Suc.IH by simp
  also have "\<dots> = layers @ replicate (Suc k) L"
    by simp
  finally show ?case .
qed

lemma GraphSAGEModel_layers:
  "GraphSAGEModel in_feats n_hidden out_dim n_layers act dropout aggregator_type =
     SAGEConv in_feats n_hidden aggregator_type dropout act
     # replicate (nat (n_layers - 1)) (SAGEConv n_hidden n_hidden aggregator_type dropout act)
     @ [SAGEConv n_hidden out_dim aggregator_type dropout None]"
  by (simp add: GraphSAGEModel_def append_hidden_replicate)

text \<open>Unfolding sets for the concrete runs on the small instance.\<close>

lemmas small_defs = small_lib_def small_model_def small_state_def chain_graph_def
  chain_features_def chain_labels_def unit_weights_def blank_dropout_def
  GraphSAGEModel_layers SAGEConv_def

lemmas run_defs = NCEvaluate_def GraphSAGEModel_forward_def NodeClassification_forward_def
  SAGEConv_forward_def gcn_node_def neighbors_def neighbor_aggregate_def gcn_combine_def
  linear_def apply_activation_def valid_graph_def index_rows_def model_eval_def
  log_event_def row_max_def count_equal_def relu_def upt_conv_Cons Let_def eval_nat_numeral

text \<open>
  Claim C9. The stack built by the constructor is width-compatible: the output width
  of every layer is the input width of the next one, the first layer reads
  \<open>in_feats\<close> columns and the last one writes \<open>out_dim\<close> columns. This holds for every
  configuration, in particular for those with all sizes and the layer count at least
  one.
\<close>

theorem GraphSAGEModel_width_compatible:
  "(\<forall>i. Suc i < length (GraphSAGEModel in_feats n_hidden out_dim n_layers act dropout aggregator_type)
      \<longrightarrow> out_feats (GraphSAGEModel in_feats n_hidden out_dim n_layers act dropout aggregator_type ! i)
          = in_src_feats (GraphSAGEModel in_feats n_hidden out_dim n_layers act dropout aggregator_type ! Suc i))
   \<and> in_src_feats (hd (GraphSAGEModel in_feats n_hidden out_dim n_layers act dropout aggregator_type))
       = in_feats
   \<and> out_feats (last (GraphSAGEModel in_feats n_hidden out_dim n_layers act dropout aggregator_type))
       = out_dim"
proof -
  define k where "k = nat (n_layers - 1)"
  define A where "A = SAGEConv in_feats n_hidden aggregator_type dropout act"
  define H where "H = SAGEConv n_hidden n_hidden aggregator_type dropout act"
  define Z where "Z = (SAGEConv n_hidden out_dim aggregator_type dropout None :: 'a sage_conv)"
  have eq: "GraphSAGEModel in_feats n_hidden out_dim n_layers act dropout aggregator_type
            = A # replicate k H @ [Z]"
    by (simp add: GraphSAGEModel_layers k_def A_def H_def Z_def)
  have w: "in_src_feats A = in_feats" "out_feats A = n_hidden" "in_src_feats H = n_hidden"
    "out_feats H = n_hidden" "in_src_feats Z = n_hidden" "out_feats Z = out_dim"
    by (simp_all add: A_def H_def Z_def SAGEConv_def)
  have chain: "out_feats ((A # replicate k H @ [Z]) ! i)
               = in_src_feats ((A # replicate k H @ [Z]) ! Suc i)"
    if "Suc i < length (A # replicate k H @ [Z])" for i
  proof -
    from that have ik: "i \<le> k" by simp
    have left: "out_feats ((A # replicate k H @ [Z]) ! i) = n_hidden"
    proof (cases i)
      case 0
      then show ?thesis by (simp add: w)
    next
      case (Suc j)
      with ik have "j < k" by simp
      then show ?thesis using Suc by (simp add: nth_append w)
    qed
    have right: "in_src_feats ((A # replicate k H @ [Z]) ! Suc i) = n_hidden"
    proof (cases "i < k")
      case True
      then show ?thesis by (simp add: nth_append w)
    next
      case False
      with ik have "i = k" by simp
      then show ?thesis by (simp add: nth_append w)
    qed
    from left right show ?thesis by simp
  qed
  show ?thesis
    unfolding eq using chain by (simp add: w)
qed

theorem GraphSAGEModel_width_compatible_witness:
  "map out_feats (butlast (gconv_model 500 3)) = map in_src_feats (tl (gconv_model 500 3))
   \<and> in_src_feats (hd (gconv_model 500 3)) = 500
   \<and> out_feats (last (gconv_model 500 3)) = 3"
  using GraphSAGEModel_width_compatible [of 500 64 3 2 "Some relu" "1 / 2" "''gcn''"]
  by (simp add: gconv_model_def GraphSAGEModel_layers SAGEConv_def)

section \<open>Calls recorded by a forward pass\<close>

lemma upt_shift: "k # [Suc k..<Suc k + length xs] = [k..<k + length (x # xs)]"
proof -
  have e: "k + length (x # xs) = Suc k + length xs"
    by simp
  have "[k..<Suc k + length xs] = k # [Suc k..<Suc k + length xs]"
    by (rule upt_conv_Cons) simp
  then show ?thesis
    unfolding e by (rule sym)
qed

lemma forward_layers_trace_ok:
  "forward_layers lb k layers g h s = (Inr out, s') \<Longrightarrow>
     trace s' = trace s @ map CallLayer [k..<k + length layers]"
proof (induction layers arbitrary: k h s)
  case Nil
  then show ?case by simp
next
  case (Cons layer layers)
  obtain res r' where lc: "layer_call lb (training s) (params s) k layer g h (rng s) = (res, r')"
    by (cases "layer_call lb (training s) (params s) k layer g h (rng s)")
  show ?case
  proof (cases res)
    case (Inl e)
    with Cons.prems lc show ?thesis by simp
  next
    case (Inr h')
    with Cons.prems lc
    have "forward_layers lb (Suc k) layers g h' (log_event (CallLayer k) (s\<lparr>rng := r'\<rparr>))
          = (Inr out, s')"
      by simp
    from Cons.IH [OF this]
    have "trace s' = trace (log_event (CallLayer k) (s\<lparr>rng := r'\<rparr>))
                     @ map CallLayer [Suc k..<Suc k + length layers]" .
    also have "trace (log_event (CallLayer k) (s\<lparr>rng := r'\<rparr>)) = trace s @ [CallLayer k]"
      by (simp add: log_event_def)
    also have "(trace s @ [CallLayer k]) @ map CallLayer [Suc k..<Suc k + length layers]
               = trace s @ map CallLayer (k # [Suc k..<Suc k + length layers])"
      by simp
    also have "k # [Suc k..<Suc k + length layers] = [k..<k + length (layer # layers)]"
      by (rule upt_shift)
    finally show ?thesis .
  qed
qed

lemma GraphSAGEModel_forward_trace_ok:
  assumes "GraphSAGEModel_forward lb layers g features s = (Inr out, s')"
  shows "trace s' = trace s @ layer_events layers"
  using forward_layers_trace_ok [of lb 0 layers g features s out s'] assms
  by (simp add: GraphSAGEModel_forward_def layer_events_def)

section \<open>The receptive field of a stack\<close>

lemma forward_layers_hops:
  assumes loc: "one_hop_layers lb nb"
    and "forward_layers lb k layers g h s = (Inr out, s1)"
    and "forward_layers lb k layers g h' s = (Inr out', s1')"
    and "length h = length h'"
    and "\<forall>u \<in> hop_ball nb g (length layers) v. u < length h \<and> h ! u = h' ! u"
  shows "out ! v = out' ! v"
  using assms(2-)
proof (induction layers arbitrary: k h h' s v)
  case Nil
  then show ?case by simp
next
  case (Cons layer layers)
  obtain a ra where la: "layer_call lb (training s) (params s) k layer g h (rng s) = (a, ra)"
    by (cases "layer_call lb (training s) (params s) k layer g h (rng s)")
  obtain b rb where lb': "layer_call lb (training s) (params s) k layer g h' (rng s) = (b, rb)"
    by (cases "layer_call lb (training s) (params s) k layer g h' (rng s)")
  from Cons.prems(1) la obtain o1 where a: "a = Inr o1"
    by (cases a) auto
  from Cons.prems(2) lb' obtain o1' where b: "b = Inr o1'"
    by (cases b) auto
  let ?s1 = "log_event (CallLayer k) (s\<lparr>rng := ra\<rparr>)"
  from loc la lb' a b Cons.prems(3)
  have step: "ra = rb \<and> length o1 = length h \<and> length o1' = length h
            \<and> (\<forall>v < length h. (\<forall>u \<in> insert v (set (nb g v)). h ! u = h' ! u)
                  \<longrightarrow> o1 ! v = o1' ! v)"
    unfolding one_hop_layers_def by blast
  have r1: "forward_layers lb (Suc k) layers g o1 ?s1 = (Inr out, s1)"
    using Cons.prems(1) la a by simp
  have r2: "forward_layers lb (Suc k) layers g o1' ?s1 = (Inr out', s1')"
    using Cons.prems(2) lb' b step by simp
  have len: "length o1 = length o1'"
    using step by simp
  have agree: "\<forall>u \<in> hop_ball nb g (length layers) v. u < length o1 \<and> o1 ! u = o1' ! u"
  proof
    fix u
    assume u: "u \<in> hop_ball nb g (length layers) v"
    with Cons.prems(4) have in_range: "u < length h"
      by simp
    have "\<forall>w \<in> insert u (set (nb g u)). h ! w = h' ! w"
      using Cons.prems(4) u by auto
    with step in_range have "o1 ! u = o1' ! u"
      by blast
    with step in_range show "u < length o1 \<and> o1 ! u = o1' ! u"
      by simp
  qed
  from r1 r2 len agree show ?case
    by (rule Cons.IH)
qed

lemma neighbor_aggregate_cong:
  assumes "\<forall>u \<in> set nbrs. h ! u = h' ! u"
  shows "neighbor_aggregate h d nbrs = neighbor_aggregate h' d nbrs"
  using assms unfolding neighbor_aggregate_def
  by (induction nbrs) simp_all

lemma gcn_node_cong:
  assumes "\<forall>u \<in> insert v (set (neighbors g v)). h ! u = h' ! u"
  shows "gcn_node layer wb g h v = gcn_node layer wb g h' v"
proof -
  from assms have "h ! v = h' ! v" and "\<forall>u \<in> set (neighbors g v). h ! u = h' ! u"
    by simp_all
  then show ?thesis
    by (simp add: gcn_node_def neighbor_aggregate_cong [of "neighbors g v" h h'])
qed

lemma neighbors_of_in_range:
  assumes "list_all (\<lambda>(a, b). a < n \<and> b < n) es" and "u \<in> set (neighbors_of es v)"
  shows "u < n"
  using assms
proof (induction es)
  case Nil
  then show ?case by simp
next
  case (Cons e es)
  obtain a b where e: "e = (a, b)"
    by (cases e)
  with Cons.prems have "a < n" "b < n" "list_all (\<lambda>(a, b). a < n \<and> b < n) es"
    by simp_all
  with Cons.IH Cons.prems(2) e show ?case
    by (auto split: if_splits)
qed

lemma small_lib_one_hop: "one_hop_layers small_lib neighbors"
  unfolding one_hop_layers_def
proof (intro allI impI)
  fix tr :: bool and p :: real and k :: nat and layer :: "(real \<Rightarrow> real) sage_conv"
  fix g :: graph and h h' :: table and r :: nat and out out' :: table and r1 r1' :: nat
  assume a: "layer_call small_lib tr p k layer g h r = (Inr out, r1)
        \<and> layer_call small_lib tr p k layer g h' r = (Inr out', r1')
        \<and> length h = length h'"
  let ?wb = "unit_weights p k"
  define hd where "hd = (if tr then map (map (\<lambda>x. 0)) h else h)"
  define hd' where "hd' = (if tr then map (map (\<lambda>x. 0)) h' else h')"
  from a have c1: "SAGEConv_forward blank_dropout tr ?wb layer g h r = (Inr out, r1)"
    and c2: "SAGEConv_forward blank_dropout tr ?wb layer g h' r = (Inr out', r1')"
    and len: "length h = length h'"
    by (simp_all add: small_lib_def)
  from c1 have vg: "valid_graph g" and n: "length h = num_nodes g"
    by (auto simp: SAGEConv_forward_def split: if_splits)
  from c1 vg n have out: "out = map (gcn_node layer ?wb g hd) [0..<num_nodes g]"
    and r1: "r1 = (if tr then Suc r else r)"
    by (auto simp: SAGEConv_forward_def blank_dropout_def hd_def split: if_splits)
  from c2 vg n len have out': "out' = map (gcn_node layer ?wb g hd') [0..<num_nodes g]"
    and r1': "r1' = (if tr then Suc r else r)"
    by (auto simp: SAGEConv_forward_def blank_dropout_def hd'_def split: if_splits)
  have rows: "out ! v = out' ! v"
    if v: "v < length h" and ag: "\<forall>u \<in> insert v (set (neighbors g v)). h ! u = h' ! u" for v
  proof -
    have "hd ! u = hd' ! u" if "u \<in> insert v (set (neighbors g v))" for u
    proof -
      from that v n vg have "u < length h"
        by (auto simp: neighbors_def valid_graph_def dest: neighbors_of_in_range)
      moreover from that ag have "h ! u = h' ! u"
        by blast
      ultimately show ?thesis
        using len by (simp add: hd_def hd'_def)
    qed
    then have "gcn_node layer ?wb g hd v = gcn_node layer ?wb g hd' v"
      by (intro gcn_node_cong) blast
    with v n show ?thesis
      by (simp add: out out')
  qed
  from r1 r1' n len rows
  show "r1 = r1' \<and> length out = length h \<and> length out' = length h
            \<and> (\<forall>v < length h. (\<forall>u \<in> insert v (set (neighbors g v)). h ! u = h' ! u)
                  \<longrightarrow> out ! v = out' ! v)"
    by (simp add: out out')
qed

text \<open>
  Claim C10. For \<open>n_layers \<ge> 1\<close> the constructor builds \<open>n_layers + 1\<close> layers: the
  input layer, \<open>n_layers - 1\<close> hidden layers and the output layer. A forward pass in
  which no layer raises calls each of them once, in order, and with layers that read
  one hop the row it returns for a node is determined by the input rows of the nodes
  within \<open>n_layers + 1\<close> hops. The notebook's model, built with \<open>n_layers = 2\<close>, has
  three layers, so it applies three aggregation layers and reads three hops.
\<close>

theorem GraphSAGEModel_layer_count:
  assumes "1 \<le> n_layers"
  shows "length (GraphSAGEModel in_feats n_hidden out_dim n_layers act dropout aggregator_type)
         = nat n_layers + 1
     \<and> GraphSAGEModel in_feats n_hidden out_dim n_layers act dropout aggregator_type
       = [SAGEConv in_feats n_hidden aggregator_type dropout act]
         @ replicate (nat n_layers - 1) (SAGEConv n_hidden n_hidden aggregator_type dropout act)
         @ [SAGEConv n_hidden out_dim aggregator_type dropout None]
     \<and> (\<forall>(lb :: ('a, 'g, 'p, 'd, 'o, 'r) lib) g features s out s'.
           GraphSAGEModel_forward lb
             (GraphSAGEModel in_feats n_hidden out_dim n_layers act dropout aggregator_type)
             g features s = (Inr out, s')
           \<longrightarrow> trace s' = trace s @ map CallLayer [0..<nat n_layers + 1])
     \<and> (\<forall>(lb :: ('a, 'g, 'p, 'd, 'o, 'r) lib) nb g h h' s out s1 out' s1' v.
           one_hop_layers lb nb
           \<and> GraphSAGEModel_forward lb
               (GraphSAGEModel in_feats n_hidden out_dim n_layers act dropout aggregator_type)
               g h s = (Inr out, s1)
           \<and> GraphSAGEModel_forward lb
               (GraphSAGEModel in_feats n_hidden out_dim n_layers act dropout aggregator_type)
               g h' s = (Inr out', s1')
           \<and> length h = length h'
           \<and> (\<forall>u \<in> hop_ball nb g (nat n_layers + 1) v. u < length h \<and> h ! u = h' ! u)
           \<longrightarrow> out ! v = out' ! v)
     \<and> length (gconv_model in_feats out_dim) = 3"
proof -
  let ?M = "GraphSAGEModel in_feats n_hidden out_dim n_layers act dropout aggregator_type"
  have k: "nat (n_layers - 1) = nat n_layers - 1"
    by simp
  have shape: "?M = [SAGEConv in_feats n_hidden aggregator_type dropout act]
        @ replicate (nat n_layers - 1) (SAGEConv n_hidden n_hidden aggregator_type dropout act)
        @ [SAGEConv n_hidden out_dim aggregator_type dropout None]"
    by (simp add: GraphSAGEModel_layers k)
  have "length ?M = 1 + (nat n_layers - 1) + 1"
    unfolding shape by simp
  also have "\<dots> = nat n_layers + 1"
    using assms by simp
  finally have len: "length ?M = nat n_layers + 1" .
  have calls: "trace s' = trace s @ map CallLayer [0..<nat n_layers + 1]"
    if "GraphSAGEModel_forward lb ?M g features s = (Inr out, s')"
    for lb :: "('a, 'g, 'p, 'd, 'o, 'r) lib" and g features s out s'
    using GraphSAGEModel_forward_trace_ok [OF that] by (simp add: layer_events_def len)
  have hops: "out ! v = out' ! v"
    if "one_hop_layers lb nb" "GraphSAGEModel_forward lb ?M g h s = (Inr out, s1)"
      "GraphSAGEModel_forward lb ?M g h' s = (Inr out', s1')" "length h = length h'"
      "\<forall>u \<in> hop_ball nb g (nat n_layers + 1) v. u < length h \<and> h ! u = h' ! u"
    for lb :: "('a, 'g, 'p, 'd, 'o, 'r) lib" and nb g h h' s out s1 out' s1' v
  proof -
    from that(5) have "\<forall>u \<in> hop_ball nb g (length ?M) v. u < length h \<and> h ! u = h' ! u"
      by (simp only: len)
    with that(1-4) show ?thesis
      unfolding GraphSAGEModel_forward_def by (rule forward_layers_hops)
  qed
  have three: "length (gconv_model in_feats out_dim) = 3"
    by (simp add: gconv_model_def GraphSAGEModel_layers)
  show ?thesis
  proof (intro conjI allI impI)
    show "length ?M = nat n_layers + 1"
      by (rule len)
    show "?M = [SAGEConv in_feats n_hidden aggregator_type dropout act]
        @ replicate (nat n_layers - 1) (SAGEConv n_hidden n_hidden aggregator_type dropout act)
        @ [SAGEConv n_hidden out_dim aggregator_type dropout None]"
      by (rule shape)
    show "length (gconv_model in_feats out_dim) = 3"
      by (rule three)
  next
    fix lb :: "('a, 'g, 'p, 'd, 'o, 'r) lib" and g features s out s'
    assume "GraphSAGEModel_forward lb ?M g features s = (Inr out, s')"
    then show "trace s' = trace s @ map CallLayer [0..<nat n_layers + 1]"
      by (rule calls)
  next
    fix lb :: "('a, 'g, 'p, 'd, 'o, 'r) lib" and nb g h h' s out s1 out' s1' v
    assume a: "one_hop_layers lb nb
           \<and> GraphSAGEModel_forward lb ?M g h s = (Inr out, s1)
           \<and> GraphSAGEModel_forward lb ?M g h' s = (Inr out', s1')
           \<and> length h = length h'
           \<and> (\<forall>u \<in> hop_ball nb g (nat n_layers + 1) v. u < length h \<and> h ! u = h' ! u)"
    from a have p1: "one_hop_layers lb nb"
      and p2: "GraphSAGEModel_forward lb ?M g h s = (Inr out, s1)"
      and p3: "GraphSAGEModel_forward lb ?M g h' s = (Inr out', s1')"
      and p4: "length h = length h'"
      and p5: "\<forall>u \<in> hop_ball nb g (nat n_layers + 1) v. u < length h \<and> h ! u = h' ! u"
      by blast+
    from p1 p2 p3 p4 p5 show "out ! v = out' ! v"
      by (rule hops)
  qed
qed

text \<open>
  Three layers of width two on the chain: nodes 0 to 3 are within three hops of node 0,
  node 4 is not, and changing the input row of node 4 leaves the output row of node 0
  as it is.
\<close>

theorem GraphSAGEModel_layer_count_witness:
  "(1 :: int) \<le> 2
   \<and> length (GraphSAGEModel 2 2 2 2 (Some relu) (1 / 2) ''gcn'') = 3
   \<and> trace (snd (GraphSAGEModel_forward small_lib
                   (GraphSAGEModel 2 2 2 2 (Some relu) (1 / 2) ''gcn'')
                   chain_graph chain_features (small_state 0)))
     = [CallLayer 0, CallLayer 1, CallLayer 2]
   \<and> one_hop_layers small_lib neighbors
   \<and> hop_ball neighbors chain_graph 3 0 = {0, 1, 2, 3}
   \<and> fst (GraphSAGEModel_forward small_lib (GraphSAGEModel 2 2 2 2 (Some relu) (1 / 2) ''gcn'')
            chain_graph chain_features (model_eval (small_state 0)))
     = Inr [[13 / 24, 11 / 24], [59 / 108, 49 / 108], [14 / 27, 13 / 27], [59 / 108, 49 / 108],
            [13 / 24, 11 / 24]]
   \<and> fst (GraphSAGEModel_forward small_lib (GraphSAGEModel 2 2 2 2 (Some relu) (1 / 2) ''gcn'')
            chain_graph [[1, 0], [0, 1], [1, 0], [0, 1], [0, 7]] (model_eval (small_state 0)))
     = Inr [[13 / 24, 11 / 24], [55 / 108, 77 / 108], [7 / 18, 25 / 18], [5 / 18, 7 / 3],
            [7 / 36, 26 / 9]]
   \<and> length (gconv_model 2 2) = 3"
proof -
  have ball: "hop_ball neighbors chain_graph 3 0 = {0, 1, 2, 3}"
    by (auto simp: small_defs neighbors_def eval_nat_numeral)
  show ?thesis
    using GraphSAGEModel_layer_count [of 2 2 2 2 "Some relu" "1 / 2" "''gcn''"]
      small_lib_one_hop ball
    by (simp add: small_defs run_defs gconv_model_def)
qed

text \<open>
  Claim C2, as stated: the output layer applies neither a nonlinearity nor dropout.
  The constructor passes \<^verbatim>\<open>feat_drop=dropout\<close> to the output layer as to every other
  layer, so in the notebook's model the output layer is built with dropout probability
  one half.
\<close>

theorem final_layer_dropout_counterexample:
  "\<not> (activation (last (gconv_model 500 3)) = None \<and> feat_drop (last (gconv_model 500 3)) = 0)"
  by (simp add: gconv_model_def GraphSAGEModel_layers SAGEConv_def)

text \<open>
  Claim C2, amended. The output layer has no activation, every layer before it has the
  activation handed to the constructor, and every layer of the stack, the output layer
  included, is built with the dropout probability handed to the constructor.
\<close>

theorem final_layer_activation_and_dropout:
  "activation (last (GraphSAGEModel in_feats n_hidden out_dim n_layers act dropout aggregator_type))
     = None
   \<and> (\<forall>layer \<in> set (butlast
          (GraphSAGEModel in_feats n_hidden out_dim n_layers act dropout aggregator_type)).
         activation layer = act)
   \<and> (\<forall>layer \<in> set (GraphSAGEModel in_feats n_hidden out_dim n_layers act dropout aggregator_type).
         feat_drop layer = dropout)"
proof -
  define k where "k = nat (n_layers - 1)"
  define A where "A = SAGEConv in_feats n_hidden aggregator_type dropout act"
  define H where "H = SAGEConv n_hidden n_hidden aggregator_type dropout act"
  define Z where "Z = (SAGEConv n_hidden out_dim aggregator_type dropout None :: 'a sage_conv)"
  have eq: "GraphSAGEModel in_feats n_hidden out_dim n_layers act dropout aggregator_type
            = (A # replicate k H) @ [Z]"
    by (simp add: GraphSAGEModel_layers k_def A_def H_def Z_def)
  have f: "activation A = act" "activation H = act" "activation Z = None"
    "feat_drop A = dropout" "feat_drop H = dropout" "feat_drop Z = dropout"
    by (simp_all add: A_def H_def Z_def SAGEConv_def)
  have "activation (last ((A # replicate k H) @ [Z])) = None"
    by (simp add: f)
  moreover have "\<forall>layer \<in> set (butlast ((A # replicate k H) @ [Z])). activation layer = act"
    unfolding butlast_snoc by (auto simp: f)
  moreover have "\<forall>layer \<in> set ((A # replicate k H) @ [Z]). feat_drop layer = dropout"
    by (auto simp: f)
  ultimately show ?thesis
    unfolding eq by blast
qed

theorem final_layer_activation_and_dropout_witness:
  "activation (last (gconv_model 500 3)) = None
   \<and> map activation (butlast (gconv_model 500 3)) = [Some relu, Some relu]
   \<and> map feat_drop (gconv_model 500 3) = [1 / 2, 1 / 2, 1 / 2]"
  using final_layer_activation_and_dropout [of 500 64 3 2 "Some relu" "1 / 2" "''gcn''"]
  by (simp add: gconv_model_def GraphSAGEModel_layers SAGEConv_def)

section \<open>The evaluator\<close>

lemma index_rows_ok:
  assumes "\<forall>i \<in> set idx. i < length x"
  shows "index_rows x idx = Inr (map (\<lambda>i. x ! i) idx)"
  using assms by (simp add: index_rows_def list_all_iff)

lemma index_rows_error: "index_rows x idx = Inl e \<Longrightarrow> e = IndexError"
  by (simp add: index_rows_def split: if_splits)

lemma lowest_argmax_unique:
  assumes "is_lowest_argmax row c" and "is_lowest_argmax row c'"
  shows "c = c'"
proof (rule ccontr)
  assume ne: "c \<noteq> c'"
  have below: "row ! a < row ! b" if "is_lowest_argmax row b" "a < b" for a b
  proof -
    from that have "b < length row" and all: "list_all (\<lambda>x. x < row ! b) (take b row)"
      by (simp_all add: is_lowest_argmax_def)
    with that(2) have "take b row ! a \<in> set (take b row)"
      by (intro nth_mem) simp
    with all have "take b row ! a < row ! b"
      by (simp add: list_all_iff)
    with that(2) show ?thesis by simp
  qed
  have above: "row ! a \<le> row ! b" if "is_lowest_argmax row b" "is_lowest_argmax row a" for a b
  proof -
    from that have "a < length row" and "list_all (\<lambda>x. x \<le> row ! b) row"
      by (simp_all add: is_lowest_argmax_def)
    then show ?thesis by (simp add: list_all_iff)
  qed
  from ne consider "c < c'" | "c' < c" by linarith
  then show False
  proof cases
    case 1
    with below [OF assms(2)] above [OF assms(1) assms(2)] show False by fastforce
  next
    case 2
    with below [OF assms(1)] above [OF assms(2) assms(1)] show False by fastforce
  qed
qed

text \<open>
  The scan keeps the lowest-indexed maximum of what it has read: \<open>ps\<close> is the part of
  the row already read, \<open>xs\<close> the part still to come.
\<close>

lemma max_scan_lowest:
  assumes "is_lowest_argmax ps cls" and "best = ps ! cls" and "k = length ps"
  shows "is_lowest_argmax (ps @ xs) (snd (max_scan best cls k xs))
         \<and> fst (max_scan best cls k xs) = (ps @ xs) ! snd (max_scan best cls k xs)"
  using assms
proof (induction xs arbitrary: ps best cls k)
  case Nil
  then show ?case by simp
next
  case (Cons x xs)
  from Cons.prems have c: "cls < length ps" and le: "list_all (\<lambda>y. y \<le> best) ps"
    and lt: "list_all (\<lambda>y. y < best) (take cls ps)"
    by (simp_all add: is_lowest_argmax_def)
  show ?case
  proof (cases "best < x")
    case True
    have "is_lowest_argmax (ps @ [x]) k"
      using le True Cons.prems(3) by (auto simp: is_lowest_argmax_def list_all_iff)
    moreover have "x = (ps @ [x]) ! k"
      using Cons.prems(3) by simp
    moreover have "Suc k = length (ps @ [x])"
      using Cons.prems(3) by simp
    ultimately have "is_lowest_argmax ((ps @ [x]) @ xs) (snd (max_scan x k (Suc k) xs))
         \<and> fst (max_scan x k (Suc k) xs) = ((ps @ [x]) @ xs) ! snd (max_scan x k (Suc k) xs)"
      by (rule Cons.IH)
    with True show ?thesis by simp
  next
    case False
    have "is_lowest_argmax (ps @ [x]) cls"
      using c le lt False Cons.prems(2)
      by (auto simp: is_lowest_argmax_def list_all_iff nth_append)
    moreover have "best = (ps @ [x]) ! cls"
      using c Cons.prems(2) by (simp add: nth_append)
    moreover have "Suc k = length (ps @ [x])"
      using Cons.prems(3) by simp
    ultimately have "is_lowest_argmax ((ps @ [x]) @ xs) (snd (max_scan best cls (Suc k) xs))
         \<and> fst (max_scan best cls (Suc k) xs)
           = ((ps @ [x]) @ xs) ! snd (max_scan best cls (Suc k) xs)"
      by (rule Cons.IH)
    with False show ?thesis by simp
  qed
qed

lemma row_max_lowest:
  assumes "row \<noteq> []"
  shows "\<exists>m c. row_max row = Inr (m, c) \<and> is_lowest_argmax row c \<and> m = row ! c"
proof -
  from assms obtain x xs where row: "row = x # xs"
    by (cases row) auto
  have "is_lowest_argmax [x] 0"
    by (simp add: is_lowest_argmax_def)
  then have "is_lowest_argmax ([x] @ xs) (snd (max_scan x 0 1 xs))
         \<and> fst (max_scan x 0 1 xs) = ([x] @ xs) ! snd (max_scan x 0 1 xs)"
    by (rule max_scan_lowest) simp_all
  then show ?thesis
    by (simp add: row row_max_def prod_eq_iff)
qed

lemma torch_max_error: "torch_max_dim1 rows = Inl e \<Longrightarrow> e = RuntimeError"
proof (induction rows)
  case Nil
  then show ?case by simp
next
  case (Cons row rows)
  show ?case
  proof (cases "row_max row")
    case (Inl e')
    with Cons.prems have "e = e'" by simp
    moreover from Inl have "e' = RuntimeError"
      by (simp add: row_max_def split: list.splits)
    ultimately show ?thesis by simp
  next
    case (Inr m)
    with Cons.prems have "torch_max_dim1 rows = Inl e"
      by (simp split: sum.splits)
    then show ?thesis by (rule Cons.IH)
  qed
qed

lemma torch_max_count:
  assumes "list_all (\<lambda>row. row \<noteq> []) rows" and "length rows = length ys"
  shows "\<exists>ms. torch_max_dim1 rows = Inr ms
           \<and> count_equal (map snd ms) ys
             = length (filter (\<lambda>(row, y). is_lowest_argmax row y) (zip rows ys))"
  using assms
proof (induction rows arbitrary: ys)
  case Nil
  then show ?case by (simp add: count_equal_def)
next
  case (Cons row rows)
  from Cons.prems(2) obtain y ys' where ys: "ys = y # ys'" and len: "length rows = length ys'"
    by (cases ys) auto
  from Cons.prems(1) have ne: "row \<noteq> []" and rest: "list_all (\<lambda>row. row \<noteq> []) rows"
    by simp_all
  from row_max_lowest [OF ne] obtain m c where
    rm: "row_max row = Inr (m, c)" and low: "is_lowest_argmax row c"
    by blast
  from Cons.IH [OF rest len] obtain ms where
    tm: "torch_max_dim1 rows = Inr ms" and
    cnt: "count_equal (map snd ms) ys'
          = length (filter (\<lambda>(row, y). is_lowest_argmax row y) (zip rows ys'))"
    by blast
  have here: "c = y \<longleftrightarrow> is_lowest_argmax row y"
    using low lowest_argmax_unique by blast
  have "torch_max_dim1 (row # rows) = Inr ((m, c) # ms)"
    by (simp add: rm tm)
  moreover have "count_equal (map snd ((m, c) # ms)) ys
        = length (filter (\<lambda>(row, y). is_lowest_argmax row y) (zip (row # rows) ys))"
    using cnt here by (simp add: ys count_equal_def)
  ultimately show ?case by blast
qed

lemma filter_zip_map:
  "length (filter (\<lambda>(a, b). P a b) (zip (map f idx) (map g idx)))
   = length (filter (\<lambda>i. P (f i) (g i)) idx)"
  by (induction idx) simp_all

text \<open>
  Claim C3. When the embedding table \<open>score\<close> has been computed, the subset is
  non-empty and lies inside the table and the labels, and every row has a class, then
  \<^verbatim>\<open>NCEvaluate\<close> returns the number of nodes of the subset whose true label is the
  lowest-indexed class of maximal score in their row, divided by the size of the subset;
  and the class predicted for every node of the subset is the lowest-indexed class of
  maximal score, ties included.
\<close>

theorem NCEvaluate_accuracy:
  assumes fwd: "GraphSAGEModel_forward lb layers g features
                  (model_eval (log_event (CallNCEvaluate test_idx) s)) = (Inr score, s')"
    and ne: "test_idx \<noteq> []"
    and rng: "\<forall>i \<in> set test_idx. i < length score \<and> i < length labels \<and> score ! i \<noteq> []"
  shows "NCEvaluate lb layers g features labels test_idx s
         = (Inr (real (length (filter (\<lambda>i. is_lowest_argmax (score ! i) (labels ! i)) test_idx))
                 / real (length test_idx)), s')
       \<and> (\<forall>i \<in> set test_idx. \<exists>m c. row_max (score ! i) = Inr (m, c)
             \<and> is_lowest_argmax (score ! i) c)"
proof -
  let ?rows = "map (\<lambda>i. score ! i) test_idx"
  let ?ys = "map (\<lambda>i. labels ! i) test_idx"
  have r1: "index_rows score test_idx = Inr ?rows"
    using rng by (intro index_rows_ok) simp
  have r2: "index_rows labels test_idx = Inr ?ys"
    using rng by (intro index_rows_ok) simp
  have "list_all (\<lambda>row. row \<noteq> []) ?rows"
    using rng by (simp add: list_all_iff)
  moreover have "length ?rows = length ?ys"
    by simp
  ultimately obtain ms where tm: "torch_max_dim1 ?rows = Inr ms"
    and cnt: "count_equal (map snd ms) ?ys
              = length (filter (\<lambda>(row, y). is_lowest_argmax row y) (zip ?rows ?ys))"
    using torch_max_count by blast
  have cnt': "count_equal (map snd ms) ?ys
              = length (filter (\<lambda>i. is_lowest_argmax (score ! i) (labels ! i)) test_idx)"
    unfolding cnt by (rule filter_zip_map)
  have "NCEvaluate lb layers g features labels test_idx s
         = (Inr (real (length (filter (\<lambda>i. is_lowest_argmax (score ! i) (labels ! i)) test_idx))
                 / real (length test_idx)), s')"
    using ne by (simp add: NCEvaluate_def fwd r1 r2 tm cnt')
  moreover have "\<forall>i \<in> set test_idx. \<exists>m c. row_max (score ! i) = Inr (m, c)
             \<and> is_lowest_argmax (score ! i) c"
    using rng row_max_lowest by blast
  ultimately show ?thesis by blast
qed

text \<open>
  On the chain, nodes 1 and 3 have the tied row \<open>[1/2, 1/2]\<close>, which is resolved to
  class 0; of the nodes 0, 1 and 2 two are classified as labelled.
\<close>

theorem NCEvaluate_accuracy_witness:
  "[0, 1, 2] \<noteq> ([] :: nat list)
   \<and> NCEvaluate small_lib small_model chain_graph chain_features chain_labels [0, 1, 2]
       (small_state 0)
     = (Inr (2 / 3),
        \<lparr>params = 0, grads = (), optim = 0, training = False, rng = 0, stdout = [],
         trace = [CallNCEvaluate [0, 1, 2], ModelEval, CallLayer 0, CallLayer 1]\<rparr>)
   \<and> row_max [1 / 2, 1 / 2] = Inr (1 / 2, 0)"
  using NCEvaluate_accuracy [of small_lib small_model chain_graph chain_features "[0, 1, 2]"
      "small_state 0" "[[7 / 12, 5 / 12], [1 / 2, 1 / 2], [5 / 9, 4 / 9], [1 / 2, 1 / 2], [7 / 12, 5 / 12]]"
      "\<lparr>params = 0, grads = (), optim = 0, training = False, rng = 0, stdout = [],
        trace = [CallNCEvaluate [0, 1, 2], ModelEval, CallLayer 0, CallLayer 1]\<rparr>"
      chain_labels]
  by (simp add: small_defs run_defs)

section \<open>The loss of the classification head\<close>

lemma sum_exp_pos:
  fixes xs :: "real list"
  assumes "xs \<noteq> []"
  shows "0 < sum_list (map exp xs)"
  using assms
proof (induction xs)
  case Nil
  then show ?case by simp
next
  case (Cons x xs)
  have "0 < exp x"
    by simp
  moreover have "0 \<le> sum_list (map exp xs)"
    by (rule sum_list_nonneg) auto
  ultimately have "0 < exp x + sum_list (map exp xs)"
    by (rule add_pos_nonneg)
  then show ?case by simp
qed

text \<open>The stabilised form computes the logarithm of the sum of the exponentials.\<close>

lemma log_sum_exp_eq:
  assumes "xs \<noteq> []"
  shows "log_sum_exp xs = ln (sum_list (map exp xs))"
proof -
  define m where "m = Max (set xs)"
  have shift: "sum_list (map (\<lambda>x. exp (x - m)) xs) = exp (- m) * sum_list (map exp xs)"
  proof -
    have "sum_list (map (\<lambda>x. exp (x - m)) xs) = sum_list (map (\<lambda>x. exp (- m) * exp x) xs)"
      by (simp add: exp_diff exp_minus divide_inverse mult.commute)
    also have "\<dots> = exp (- m) * sum_list (map exp xs)"
      by (simp add: sum_list_const_mult)
    finally show ?thesis .
  qed
  have pos: "0 < sum_list (map exp xs)"
    using assms by (rule sum_exp_pos)
  have "ln (exp (- m) * sum_list (map exp xs)) = ln (exp (- m)) + ln (sum_list (map exp xs))"
    using pos by (intro ln_mult_pos) simp_all
  then have "m + ln (sum_list (map (\<lambda>x. exp (x - m)) xs)) = ln (sum_list (map exp xs))"
    unfolding shift by simp
  then show ?thesis
    by (simp add: log_sum_exp_def m_def)
qed

lemma row_losses_map:
  assumes "\<forall>i \<in> set idx. g i < length (f i)"
  shows "row_losses (map f idx) (map g idx)
         = Inr (map (\<lambda>i. - (f i ! g i) + ln (sum_list (map exp (f i)))) idx)"
  using assms
proof (induction idx)
  case Nil
  show ?case by simp
next
  case (Cons i idx)
  from Cons.prems have here: "g i < length (f i)" and rest: "\<forall>j \<in> set idx. g j < length (f j)"
    by simp_all
  from here have "f i \<noteq> []" by auto
  then have "row_loss (f i) (g i) = Inr (- (f i ! g i) + ln (sum_list (map exp (f i))))"
    using here by (simp add: row_loss_def log_sum_exp_eq)
  with Cons.IH [OF rest] show ?case by simp
qed

text \<open>
  Claim C1. With the cross-entropy loss in place, when the stack has produced the
  table \<open>score\<close>, the subset \<open>S\<close> is non-empty and inside the table and the labels, and
  every label of the subset is a class of its row, the head returns the mean over
  \<open>i\<close> in \<open>S\<close> of \<open>- score[i, label[i]] + log (sum over c of exp score[i, c])\<close>.
\<close>

theorem NodeClassification_forward_loss:
  assumes fwd: "GraphSAGEModel_forward lb layers g features (log_event (CallModel S) s)
                = (Inr score, s')"
    and loss: "loss_fcn lb = CrossEntropyLoss"
    and ne: "S \<noteq> []"
    and rng: "\<forall>i \<in> set S. i < length score \<and> i < length labels \<and> labels ! i < length (score ! i)"
  shows "NodeClassification_forward lb layers labels g features S s
         = (Inr (Num ((\<Sum>i\<leftarrow>S. - (score ! i ! (labels ! i)) + ln (\<Sum>c\<leftarrow>score ! i. exp c))
                      / real (length S))), s')"
proof -
  let ?rows = "map (\<lambda>i. score ! i) S"
  let ?ys = "map (\<lambda>i. labels ! i) S"
  let ?ls = "map (\<lambda>i. - (score ! i ! (labels ! i)) + ln (sum_list (map exp (score ! i)))) S"
  have r1: "index_rows score S = Inr ?rows"
    using rng by (intro index_rows_ok) simp
  have r2: "index_rows labels S = Inr ?ys"
    using rng by (intro index_rows_ok) simp
  have "row_losses ?rows ?ys = Inr ?ls"
    using rng by (intro row_losses_map) simp
  moreover have "?rows \<noteq> []"
    using ne by simp
  ultimately have "CrossEntropyLoss ?rows ?ys = Inr (Num (sum_list ?ls / real (length S)))"
    by (simp add: CrossEntropyLoss_def)
  then show ?thesis
    by (simp add: NodeClassification_forward_def fwd r1 r2 loss)
qed

text \<open>
  On the chain in evaluation mode, for the nodes 0 and 1 with their labels 0 and 1.
\<close>

theorem NodeClassification_forward_loss_witness:
  "[0, 1] \<noteq> ([] :: nat list)
   \<and> NodeClassification_forward small_lib small_model chain_labels chain_graph chain_features
       [0, 1] ((small_state 0)\<lparr>training := False\<rparr>)
     = (Inr (Num ((- (7 / 12) + ln (exp (7 / 12) + exp (5 / 12))
                   + (- (1 / 2) + ln (exp (1 / 2) + exp (1 / 2)))) / 2)),
        \<lparr>params = 0, grads = (), optim = 0, training = False, rng = 0, stdout = [],
         trace = [CallModel [0, 1], CallLayer 0, CallLayer 1]\<rparr>)"
  using NodeClassification_forward_loss [of small_lib small_model chain_graph chain_features
      "[0, 1]" "(small_state 0)\<lparr>training := False\<rparr>"
      "[[7 / 12, 5 / 12], [1 / 2, 1 / 2], [5 / 9, 4 / 9], [1 / 2, 1 / 2], [7 / 12, 5 / 12]]"
      "\<lparr>params = 0, grads = (), optim = 0, training = False, rng = 0, stdout = [],
        trace = [CallModel [0, 1], CallLayer 0, CallLayer 1]\<rparr>"
      chain_labels]
  by (simp add: small_defs GraphSAGEModel_forward_def SAGEConv_forward_def gcn_node_def
      neighbors_def neighbor_aggregate_def gcn_combine_def linear_def apply_activation_def
      valid_graph_def log_event_def relu_def upt_conv_Cons Let_def eval_nat_numeral)

section \<open>What a forward pass leaves unchanged\<close>

lemma forward_layers_frame:
  "forward_layers lb k layers g h s = (res, s') \<Longrightarrow>
     params s' = params s \<and> grads s' = grads s \<and> optim s' = optim s
     \<and> training s' = training s \<and> stdout s' = stdout s"
proof (induction layers arbitrary: k h s)
  case Nil
  then show ?case by auto
next
  case (Cons layer layers)
  obtain r1 r' where lc: "layer_call lb (training s) (params s) k layer g h (rng s) = (r1, r')"
    by (cases "layer_call lb (training s) (params s) k layer g h (rng s)")
  let ?s1 = "log_event (CallLayer k) (s\<lparr>rng := r'\<rparr>)"
  have same: "params ?s1 = params s \<and> grads ?s1 = grads s \<and> optim ?s1 = optim s
     \<and> training ?s1 = training s \<and> stdout ?s1 = stdout s"
    by (simp add: log_event_def)
  show ?case
  proof (cases r1)
    case (Inl e)
    with Cons.prems lc have "s' = ?s1" by simp
    with same show ?thesis by simp
  next
    case (Inr h')
    with Cons.prems lc have "forward_layers lb (Suc k) layers g h' ?s1 = (res, s')"
      by simp
    from Cons.IH [OF this] same show ?thesis by simp
  qed
qed

lemma GraphSAGEModel_forward_frame:
  "params (snd (GraphSAGEModel_forward lb layers g features s)) = params s
   \<and> grads (snd (GraphSAGEModel_forward lb layers g features s)) = grads s
   \<and> optim (snd (GraphSAGEModel_forward lb layers g features s)) = optim s
   \<and> training (snd (GraphSAGEModel_forward lb layers g features s)) = training s
   \<and> stdout (snd (GraphSAGEModel_forward lb layers g features s)) = stdout s"
  using forward_layers_frame [of lb 0 layers g features s
      "fst (forward_layers lb 0 layers g features s)" "snd (forward_layers lb 0 layers g features s)"]
  by (simp add: GraphSAGEModel_forward_def)

lemma NodeClassification_forward_frame:
  "params (snd (NodeClassification_forward lb layers labels g features idx s)) = params s
   \<and> grads (snd (NodeClassification_forward lb layers labels g features idx s)) = grads s
   \<and> optim (snd (NodeClassification_forward lb layers labels g features idx s)) = optim s
   \<and> stdout (snd (NodeClassification_forward lb layers labels g features idx s)) = stdout s"
proof -
  let ?s0 = "log_event (CallModel idx) s"
  have "snd (NodeClassification_forward lb layers labels g features idx s)
        = snd (GraphSAGEModel_forward lb layers g features ?s0)"
    by (cases "GraphSAGEModel_forward lb layers g features ?s0")
       (simp add: NodeClassification_forward_def split: sum.splits)
  with GraphSAGEModel_forward_frame [of lb layers g features ?s0]
  show ?thesis by (simp add: log_event_def)
qed

lemma NCEvaluate_frame:
  "params (snd (NCEvaluate lb layers g features labels idx s)) = params s
   \<and> grads (snd (NCEvaluate lb layers g features labels idx s)) = grads s
   \<and> optim (snd (NCEvaluate lb layers g features labels idx s)) = optim s
   \<and> stdout (snd (NCEvaluate lb layers g features labels idx s)) = stdout s"
proof -
  let ?s0 = "model_eval (log_event (CallNCEvaluate idx) s)"
  have "snd (NCEvaluate lb layers g features labels idx s)
        = snd (GraphSAGEModel_forward lb layers g features ?s0)"
    by (cases "GraphSAGEModel_forward lb layers g features ?s0")
       (simp add: NCEvaluate_def Let_def split: sum.splits)
  with GraphSAGEModel_forward_frame [of lb layers g features ?s0]
  show ?thesis by (simp add: model_eval_def log_event_def)
qed

section \<open>The steps of an epoch\<close>

text \<open>
  An epoch that did not raise went through the forward call, the three calls that
  update the model, the evaluation on the validation subset and the printed line.
\<close>

lemma train_epoch_success:
  assumes "train_epoch lb layers g features labels train_idx val_idx epoch s = (Inr u, s')"
  obtains loss acc s2 s6 where
    "NodeClassification_forward lb layers labels g features train_idx (model_train s)
     = (Inr loss, s2)"
    "NCEvaluate lb layers g features labels val_idx
       (optimizer_step lb (loss_backward lb (rng s) train_idx (optimizer_zero_grad lb s2)))
     = (Inr acc, s6)"
    "s' = print_line (EpochLine epoch loss acc) s6"
proof -
  let ?s1 = "model_train s"
  have r0: "rng ?s1 = rng s"
    by (simp add: model_train_def log_event_def)
  obtain res2 s2 where F: "NodeClassification_forward lb layers labels g features train_idx ?s1
                           = (res2, s2)"
    by (cases "NodeClassification_forward lb layers labels g features train_idx ?s1")
  from assms F obtain loss where res2: "res2 = Inr loss"
    by (cases res2) (auto simp: train_epoch_def)
  let ?s5 = "optimizer_step lb (loss_backward lb (rng s) train_idx (optimizer_zero_grad lb s2))"
  obtain res6 s6 where E: "NCEvaluate lb layers g features labels val_idx ?s5 = (res6, s6)"
    by (cases "NCEvaluate lb layers g features labels val_idx ?s5")
  from assms F res2 E r0 obtain acc where res6: "res6 = Inr acc"
    by (cases res6) (auto simp: train_epoch_def Let_def)
  from assms F res2 E res6 r0 have "s' = print_line (EpochLine epoch loss acc) s6"
    by (simp add: train_epoch_def Let_def)
  with F res2 E res6 that show ?thesis
    by blast
qed

text \<open>
  What is left of it in the state: the gradient buffers, the parameters and the
  optimizer's state after the update, and one more line.
\<close>

lemma train_epoch_state:
  assumes "train_epoch lb layers g features labels train_idx val_idx epoch s = (Inr u, s')"
  obtains loss acc s5 where
    "fst (NodeClassification_forward lb layers labels g features train_idx (model_train s))
     = Inr loss"
    "grads s' = backward lb (params s) (rng s) train_idx (zero_grad lb (grads s))"
    "params s' = fst (adam_step lb (optim s) (params s) (grads s'))"
    "optim s' = snd (adam_step lb (optim s) (params s) (grads s'))"
    "params s5 = params s'"
    "fst (NCEvaluate lb layers g features labels val_idx s5) = Inr acc"
    "stdout s' = stdout s @ [EpochLine epoch loss acc]"
proof -
  from assms obtain loss acc s2 s6 where
    F: "NodeClassification_forward lb layers labels g features train_idx (model_train s)
        = (Inr loss, s2)"
    and E: "NCEvaluate lb layers g features labels val_idx
              (optimizer_step lb (loss_backward lb (rng s) train_idx (optimizer_zero_grad lb s2)))
            = (Inr acc, s6)"
    and s': "s' = print_line (EpochLine epoch loss acc) s6"
    by (rule train_epoch_success)
  let ?G = "backward lb (params s) (rng s) train_idx (zero_grad lb (grads s))"
  let ?s4 = "loss_backward lb (rng s) train_idx (optimizer_zero_grad lb s2)"
  let ?s5 = "optimizer_step lb ?s4"
  have s2: "params s2 = params s" "grads s2 = grads s" "optim s2 = optim s" "stdout s2 = stdout s"
    using NodeClassification_forward_frame [of lb layers labels g features train_idx "model_train s"] F
    by (simp_all add: model_train_def log_event_def)
  have s4: "params ?s4 = params s" "optim ?s4 = optim s" "grads ?s4 = ?G" "stdout ?s4 = stdout s"
    using s2 by (simp_all add: loss_backward_def optimizer_zero_grad_def log_event_def)
  have s5: "params ?s5 = fst (adam_step lb (optim s) (params s) ?G)"
    "optim ?s5 = snd (adam_step lb (optim s) (params s) ?G)"
    "grads ?s5 = ?G" "stdout ?s5 = stdout s"
    using s4 by (simp_all add: optimizer_step_def log_event_def split: prod.splits)
  have s6: "params s6 = params ?s5" "grads s6 = grads ?s5" "optim s6 = optim ?s5"
    "stdout s6 = stdout ?s5"
    using NCEvaluate_frame [of lb layers g features labels val_idx ?s5] E by simp_all
  have 1: "fst (NodeClassification_forward lb layers labels g features train_idx (model_train s))
           = Inr loss"
    using F by simp
  have 2: "grads s' = ?G"
    using s' s6 s5 by (simp add: print_line_def)
  have 3: "params s' = fst (adam_step lb (optim s) (params s) (grads s'))"
    unfolding 2 using s' s6 s5 by (simp add: print_line_def)
  have 4: "optim s' = snd (adam_step lb (optim s) (params s) (grads s'))"
    unfolding 2 using s' s6 s5 by (simp add: print_line_def)
  have 5: "params ?s5 = params s'"
    using s' s6 by (simp add: print_line_def)
  have 6: "fst (NCEvaluate lb layers g features labels val_idx ?s5) = Inr acc"
    using E by simp
  have 7: "stdout s' = stdout s @ [EpochLine epoch loss acc]"
    using s' s6 s5 by (simp add: print_line_def)
  from 1 2 3 4 5 6 7 that show ?thesis
    by blast
qed

section \<open>Empty subsets\<close>

lemma not_isl_fst:
  assumes "\<not> isl (fst r)"
  obtains x s where "r = (Inr x, s)"
proof (cases r)
  case (Pair a b)
  with assms obtain x where "a = Inr x"
    by (cases a) auto
  with Pair that show ?thesis by blast
qed

lemma row_losses_length: "row_losses rows ys = Inr ls \<Longrightarrow> length ls = length rows"
proof (induction rows ys arbitrary: ls rule: row_losses.induct)
  case 1
  then show ?case by simp
next
  case (2 xs rows y ys)
  then show ?case
    by (auto split: sum.splits)
qed simp_all

lemma row_losses_error:
  "row_losses rows ys = Inl e \<Longrightarrow> e = IndexError \<or> e = ShapeMismatch"
proof (induction rows ys rule: row_losses.induct)
  case 1
  then show ?case by simp
next
  case (2 xs rows y ys)
  then show ?case
    by (auto simp: row_loss_def split: sum.splits if_splits)
qed simp_all

lemma row_losses_same_length:
  "length rows = length ys \<Longrightarrow> row_losses rows ys \<noteq> Inl ShapeMismatch"
proof (induction rows ys rule: row_losses.induct)
  case 1
  show ?case by simp
next
  case (2 xs rows y ys)
  show ?case
  proof (cases "row_loss xs y")
    case (Inl e)
    then have "e = IndexError"
      by (auto simp: row_loss_def split: if_splits)
    with Inl show ?thesis by simp
  next
    case (Inr l)
    from "2.prems" have "length rows = length ys"
      by simp
    with "2.IH" [OF Inr] have "row_losses rows ys \<noteq> Inl ShapeMismatch" .
    with Inr show ?thesis
      by (auto split: sum.splits)
  qed
qed simp_all

text \<open>The loss on a batch: the float \<^verbatim>\<open>nan\<close> exactly when the batch has no rows.\<close>

lemma CrossEntropyLoss_cases:
  "(rows = [] \<and> ys = [] \<and> CrossEntropyLoss rows ys = Inr NaN)
   \<or> (rows \<noteq> [] \<and> (\<exists>x. CrossEntropyLoss rows ys = Inr (Num x)))
   \<or> CrossEntropyLoss rows ys = Inl IndexError
   \<or> CrossEntropyLoss rows ys = Inl ShapeMismatch"
proof (cases "row_losses rows ys")
  case (Inl e)
  then have "CrossEntropyLoss rows ys = Inl e"
    by (simp add: CrossEntropyLoss_def)
  with row_losses_error [OF Inl] show ?thesis
    by auto
next
  case (Inr ls)
  note len = row_losses_length [OF Inr]
  show ?thesis
  proof (cases rows)
    case Nil
    with Inr have "ys = []"
      by (cases ys) simp_all
    with Nil Inr len show ?thesis
      by (simp add: CrossEntropyLoss_def)
  next
    case (Cons xs rows')
    with Inr len have "CrossEntropyLoss rows ys = Inr (Num (sum_list ls / real (length ls)))"
      by (simp add: CrossEntropyLoss_def)
    with Cons show ?thesis
      by simp
  qed
qed

text \<open>
  The head with the cross-entropy loss, when the stack has produced its table: on the
  empty subset it returns \<^verbatim>\<open>nan\<close>; on any other subset it returns a number or raises
  \<^verbatim>\<open>IndexError\<close>.
\<close>

lemma NodeClassification_forward_cases:
  assumes loss: "loss_fcn lb = CrossEntropyLoss"
    and fwd: "GraphSAGEModel_forward lb layers g features (log_event (CallModel idx) s)
              = (Inr score, s')"
  shows "(idx = [] \<longrightarrow> NodeClassification_forward lb layers labels g features idx s = (Inr NaN, s'))
    \<and> (idx \<noteq> [] \<longrightarrow>
         (\<exists>x. NodeClassification_forward lb layers labels g features idx s = (Inr (Num x), s'))
         \<or> NodeClassification_forward lb layers labels g features idx s = (Inl IndexError, s'))"
proof (intro conjI impI)
  assume "idx = []"
  then show "NodeClassification_forward lb layers labels g features idx s = (Inr NaN, s')"
    using fwd by (simp add: NodeClassification_forward_def index_rows_def loss
        CrossEntropyLoss_def)
next
  assume ne: "idx \<noteq> []"
  show "(\<exists>x. NodeClassification_forward lb layers labels g features idx s = (Inr (Num x), s'))
         \<or> NodeClassification_forward lb layers labels g features idx s = (Inl IndexError, s')"
  proof (cases "index_rows score idx")
    case (Inl e)
    with index_rows_error [OF Inl] fwd show ?thesis
      by (simp add: NodeClassification_forward_def)
  next
    case rows: (Inr rows)
    then have rne: "rows \<noteq> []" and rlen: "length rows = length idx"
      using ne by (auto simp: index_rows_def split: if_splits)
    show ?thesis
    proof (cases "index_rows labels idx")
      case (Inl e)
      with index_rows_error [OF Inl] fwd rows show ?thesis
        by (simp add: NodeClassification_forward_def)
    next
      case ys: (Inr ys)
      then have ylen: "length ys = length idx"
        by (auto simp: index_rows_def split: if_splits)
      have res: "NodeClassification_forward lb layers labels g features idx s
                 = (CrossEntropyLoss rows ys, s')"
        using fwd rows ys by (simp add: NodeClassification_forward_def loss)
      have "row_losses rows ys \<noteq> Inl ShapeMismatch"
        using rlen ylen by (intro row_losses_same_length) simp
      then have "CrossEntropyLoss rows ys \<noteq> Inl ShapeMismatch"
        by (auto simp: CrossEntropyLoss_def split: sum.splits if_splits)
      with CrossEntropyLoss_cases [of rows ys] rne res show ?thesis
        by auto
    qed
  qed
qed

text \<open>
  Claim C4, as stated: on an empty subset the loss and the evaluation each fail with
  \<^verbatim>\<open>EmptySubset\<close>, surfaced to the caller. On the chain the head called with the empty
  subset raises nothing and returns \<^verbatim>\<open>nan\<close>, an epoch with the empty training subset
  runs to its end and prints that loss, and the evaluation on the empty subset fails
  with \<^verbatim>\<open>ZeroDivisionError\<close>.
\<close>

theorem empty_subset_counterexample:
  "fst (NodeClassification_forward small_lib small_model chain_labels chain_graph chain_features
          [] (small_state 0)) = Inr NaN
   \<and> train_epoch small_lib small_model chain_graph chain_features chain_labels [] [2, 3] 0
       (small_state 0)
     = (Inr (),
        \<lparr>params = 1, grads = (), optim = 1, training = False, rng = 2,
         stdout = [EpochLine 0 NaN (1 / 2)],
         trace = [ModelTrain, CallModel [], CallLayer 0, CallLayer 1, ZeroGrad, Backward,
                  OptimizerStep, CallNCEvaluate [2, 3], ModelEval, CallLayer 0, CallLayer 1]\<rparr>)
   \<and> fst (NCEvaluate small_lib small_model chain_graph chain_features chain_labels []
          (small_state 0)) = Inl ZeroDivisionError"
  by (simp add: small_defs run_defs train_epoch_def model_train_def optimizer_zero_grad_def
      loss_backward_def optimizer_step_def print_line_def CrossEntropyLoss_def row_loss_def)

text \<open>
  Claim C4, amended. The notebook has no \<^verbatim>\<open>EmptySubset\<close> error, and the two callers
  behave differently on an empty subset. When the embedding table has been computed,
  \<^verbatim>\<open>NCEvaluate\<close> on an empty subset fails with Python's \<^verbatim>\<open>ZeroDivisionError\<close>, raised by
  the division by \<^verbatim>\<open>len(test_labels)\<close>, and on a non-empty subset it raises neither
  that error nor \<^verbatim>\<open>EmptySubset\<close>. \<^verbatim>\<open>NodeClassification.forward\<close> with the cross-entropy
  loss raises nothing on an empty subset: it returns \<^verbatim>\<open>nan\<close>, the mean of no losses; on
  a non-empty subset it returns neither \<^verbatim>\<open>nan\<close> for want of rows nor one of the two
  errors. An epoch with an empty training subset is not stopped by it: the optimizer
  makes its update, and when the epoch ends without an exception the line it prints
  shows the loss \<^verbatim>\<open>nan\<close>.
\<close>

theorem empty_subset_outcomes:
  "(\<not> isl (fst (GraphSAGEModel_forward lb layers g features
                  (model_eval (log_event (CallNCEvaluate []) s))))
    \<longrightarrow> fst (NCEvaluate lb layers g features labels [] s) = Inl ZeroDivisionError)
   \<and> (idx \<noteq> [] \<and> \<not> isl (fst (GraphSAGEModel_forward lb layers g features
                               (model_eval (log_event (CallNCEvaluate idx) s))))
    \<longrightarrow> fst (NCEvaluate lb layers g features labels idx s) \<noteq> Inl ZeroDivisionError
      \<and> fst (NCEvaluate lb layers g features labels idx s) \<noteq> Inl EmptySubset)
   \<and> (loss_fcn lb = CrossEntropyLoss
      \<and> \<not> isl (fst (GraphSAGEModel_forward lb layers g features (log_event (CallModel []) s)))
    \<longrightarrow> fst (NodeClassification_forward lb layers labels g features [] s) = Inr NaN)
   \<and> (loss_fcn lb = CrossEntropyLoss \<and> idx \<noteq> []
      \<and> \<not> isl (fst (GraphSAGEModel_forward lb layers g features (log_event (CallModel idx) s)))
    \<longrightarrow> fst (NodeClassification_forward lb layers labels g features idx s) \<noteq> Inr NaN
      \<and> fst (NodeClassification_forward lb layers labels g features idx s) \<noteq> Inl EmptySubset
      \<and> fst (NodeClassification_forward lb layers labels g features idx s)
          \<noteq> Inl ZeroDivisionError)
   \<and> (loss_fcn lb = CrossEntropyLoss
      \<and> \<not> isl (fst (GraphSAGEModel_forward lb layers g features
                      (log_event (CallModel []) (model_train s))))
    \<longrightarrow> params (snd (train_epoch lb layers g features labels [] val_idx epoch s))
        = fst (adam_step lb (optim s) (params s)
                 (backward lb (params s) (rng s) [] (zero_grad lb (grads s)))))
   \<and> (loss_fcn lb = CrossEntropyLoss
      \<and> fst (train_epoch lb layers g features labels [] val_idx epoch s) = Inr ()
    \<longrightarrow> (\<exists>acc. stdout (snd (train_epoch lb layers g features labels [] val_idx epoch s))
                = stdout s @ [EpochLine epoch NaN acc]))"
proof (intro conjI impI)
  assume ok: "\<not> isl (fst (GraphSAGEModel_forward lb layers g features
                (model_eval (log_event (CallNCEvaluate []) s))))"
  then obtain score0 s0 where fwd: "GraphSAGEModel_forward lb layers g features
                 (model_eval (log_event (CallNCEvaluate []) s)) = (Inr score0, s0)"
    by (rule not_isl_fst)
  have "index_rows score0 [] = Inr []" and "index_rows labels [] = Inr []"
    by (simp_all add: index_rows_def)
  then show "fst (NCEvaluate lb layers g features labels [] s) = Inl ZeroDivisionError"
    by (simp add: NCEvaluate_def fwd)
next
  assume a: "idx \<noteq> [] \<and> \<not> isl (fst (GraphSAGEModel_forward lb layers g features
               (model_eval (log_event (CallNCEvaluate idx) s))))"
  then have ne: "idx \<noteq> []"
    by simp
  from a have "\<not> isl (fst (GraphSAGEModel_forward lb layers g features
               (model_eval (log_event (CallNCEvaluate idx) s))))"
    by simp
  then obtain score1 s1 where fwd: "GraphSAGEModel_forward lb layers g features
               (model_eval (log_event (CallNCEvaluate idx) s)) = (Inr score1, s1)"
    by (rule not_isl_fst)
  have len: "length ys = length idx" if "index_rows labels idx = Inr ys" for ys
    using that by (auto simp: index_rows_def split: if_splits)
  have cases: "fst (NCEvaluate lb layers g features labels idx s) = Inl IndexError
      \<or> fst (NCEvaluate lb layers g features labels idx s) = Inl RuntimeError
      \<or> (\<exists>acc. fst (NCEvaluate lb layers g features labels idx s) = Inr acc)"
    using ne len
    by (auto simp: NCEvaluate_def fwd Let_def split: sum.splits
             dest: index_rows_error torch_max_error)
  then show "fst (NCEvaluate lb layers g features labels idx s) \<noteq> Inl ZeroDivisionError"
    by auto
  from cases show "fst (NCEvaluate lb layers g features labels idx s) \<noteq> Inl EmptySubset"
    by auto
next
  assume a: "loss_fcn lb = CrossEntropyLoss
      \<and> \<not> isl (fst (GraphSAGEModel_forward lb layers g features (log_event (CallModel []) s)))"
  then have "\<not> isl (fst (GraphSAGEModel_forward lb layers g features
                          (log_event (CallModel []) s)))"
    by simp
  then obtain score2 s2 where fwd: "GraphSAGEModel_forward lb layers g features
               (log_event (CallModel []) s) = (Inr score2, s2)"
    by (rule not_isl_fst)
  from a have loss: "loss_fcn lb = CrossEntropyLoss"
    by simp
  from NodeClassification_forward_cases [OF loss fwd, of labels]
  show "fst (NodeClassification_forward lb layers labels g features [] s) = Inr NaN"
    by simp
next
  assume a: "loss_fcn lb = CrossEntropyLoss \<and> idx \<noteq> []
      \<and> \<not> isl (fst (GraphSAGEModel_forward lb layers g features (log_event (CallModel idx) s)))"
  then have "\<not> isl (fst (GraphSAGEModel_forward lb layers g features
                          (log_event (CallModel idx) s)))"
    by simp
  then obtain score3 s3 where fwd: "GraphSAGEModel_forward lb layers g features
               (log_event (CallModel idx) s) = (Inr score3, s3)"
    by (rule not_isl_fst)
  from a have loss: "loss_fcn lb = CrossEntropyLoss" and ne: "idx \<noteq> []"
    by simp_all
  from NodeClassification_forward_cases [OF loss fwd, of labels] ne
  have cases: "(\<exists>x. fst (NodeClassification_forward lb layers labels g features idx s)
                     = Inr (Num x))
      \<or> fst (NodeClassification_forward lb layers labels g features idx s) = Inl IndexError"
    by auto
  then show "fst (NodeClassification_forward lb layers labels g features idx s) \<noteq> Inr NaN"
    by auto
  from cases
  show "fst (NodeClassification_forward lb layers labels g features idx s) \<noteq> Inl EmptySubset"
    by auto
  from cases
  show "fst (NodeClassification_forward lb layers labels g features idx s)
        \<noteq> Inl ZeroDivisionError"
    by auto
next
  assume a: "loss_fcn lb = CrossEntropyLoss
      \<and> \<not> isl (fst (GraphSAGEModel_forward lb layers g features
                      (log_event (CallModel []) (model_train s))))"
  then have "\<not> isl (fst (GraphSAGEModel_forward lb layers g features
                          (log_event (CallModel []) (model_train s))))"
    by simp
  then obtain score4 s2 where fwd: "GraphSAGEModel_forward lb layers g features
               (log_event (CallModel []) (model_train s)) = (Inr score4, s2)"
    by (rule not_isl_fst)
  from a have loss: "loss_fcn lb = CrossEntropyLoss"
    by simp
  from NodeClassification_forward_cases [OF loss fwd, of labels]
  have F: "NodeClassification_forward lb layers labels g features [] (model_train s)
           = (Inr NaN, s2)"
    by simp
  let ?G = "backward lb (params s) (rng s) [] (zero_grad lb (grads s))"
  let ?s5 = "optimizer_step lb (loss_backward lb (rng s) [] (optimizer_zero_grad lb s2))"
  have s2: "params s2 = params s" "grads s2 = grads s" "optim s2 = optim s"
    using NodeClassification_forward_frame [of lb layers labels g features "[]" "model_train s"] F
    by (simp_all add: model_train_def log_event_def)
  then have s5: "params ?s5 = fst (adam_step lb (optim s) (params s) ?G)"
    by (simp add: optimizer_step_def loss_backward_def optimizer_zero_grad_def log_event_def
        split: prod.splits)
  have r0: "rng (model_train s) = rng s"
    by (simp add: model_train_def log_event_def)
  have "params (snd (train_epoch lb layers g features labels [] val_idx epoch s))
        = params (snd (NCEvaluate lb layers g features labels val_idx ?s5))"
    by (cases "NCEvaluate lb layers g features labels val_idx ?s5")
       (simp add: train_epoch_def Let_def F r0 print_line_def split: sum.splits)
  also have "\<dots> = params ?s5"
    using NCEvaluate_frame [of lb layers g features labels val_idx ?s5] by simp
  finally show "params (snd (train_epoch lb layers g features labels [] val_idx epoch s))
        = fst (adam_step lb (optim s) (params s) ?G)"
    using s5 by simp
next
  assume a: "loss_fcn lb = CrossEntropyLoss
      \<and> fst (train_epoch lb layers g features labels [] val_idx epoch s) = Inr ()"
  then have loss: "loss_fcn lb = CrossEntropyLoss"
    by simp
  obtain s' where T: "train_epoch lb layers g features labels [] val_idx epoch s = (Inr (), s')"
    using a by (cases "train_epoch lb layers g features labels [] val_idx epoch s") simp
  from T obtain l acc where
    l: "fst (NodeClassification_forward lb layers labels g features [] (model_train s)) = Inr l"
    and out: "stdout s' = stdout s @ [EpochLine epoch l acc]"
    by (rule train_epoch_state)
  obtain res0 s0 where fwd: "GraphSAGEModel_forward lb layers g features
               (log_event (CallModel []) (model_train s)) = (res0, s0)"
    by (cases "GraphSAGEModel_forward lb layers g features
               (log_event (CallModel []) (model_train s))")
  from l fwd obtain score where "res0 = Inr score"
    by (cases res0) (auto simp: NodeClassification_forward_def)
  with fwd NodeClassification_forward_cases [OF loss, of layers g features "[]" "model_train s"
      score s0 labels] l
  have "l = NaN"
    by simp
  with out T show "\<exists>acc. stdout (snd (train_epoch lb layers g features labels [] val_idx epoch s))
                = stdout s @ [EpochLine epoch NaN acc]"
    by simp
qed

text \<open>
  On the chain: the evaluation on the empty subset and on the nodes 0, 1 and 2, the
  head on the same two subsets (in training mode, where the dropout stand-in blanks
  every table), and an epoch with the empty training subset.
\<close>

theorem empty_subset_outcomes_witness:
  "\<not> isl (fst (GraphSAGEModel_forward small_lib small_model chain_graph chain_features
                 (model_eval (log_event (CallNCEvaluate []) (small_state 0)))))
   \<and> fst (NCEvaluate small_lib small_model chain_graph chain_features chain_labels []
          (small_state 0)) = Inl ZeroDivisionError
   \<and> [0, 1, 2] \<noteq> ([] :: nat list)
   \<and> fst (NCEvaluate small_lib small_model chain_graph chain_features chain_labels [0, 1, 2]
          (small_state 0)) = Inr (2 / 3)
   \<and> loss_fcn small_lib = CrossEntropyLoss
   \<and> \<not> isl (fst (GraphSAGEModel_forward small_lib small_model chain_graph chain_features
                 (log_event (CallModel []) (small_state 0))))
   \<and> fst (NodeClassification_forward small_lib small_model chain_labels chain_graph
            chain_features [] (small_state 0)) = Inr NaN
   \<and> fst (NodeClassification_forward small_lib small_model chain_labels chain_graph
            chain_features [0, 1, 2] (small_state 0)) = Inr (Num (ln 2))
   \<and> fst (train_epoch small_lib small_model chain_graph chain_features chain_labels [] [2, 3] 0
            (small_state 0)) = Inr ()
   \<and> params (snd (train_epoch small_lib small_model chain_graph chain_features chain_labels
                    [] [2, 3] 0 (small_state 0))) = 1
   \<and> stdout (snd (train_epoch small_lib small_model chain_graph chain_features chain_labels
                    [] [2, 3] 0 (small_state 0))) = [EpochLine 0 NaN (1 / 2)]"
  using empty_subset_outcomes [of small_lib small_model chain_graph chain_features "small_state 0"
      chain_labels "[0, 1, 2]" "[2, 3]" 0]
  by (simp add: small_defs run_defs train_epoch_def model_train_def optimizer_zero_grad_def
      loss_backward_def optimizer_step_def print_line_def CrossEntropyLoss_def row_loss_def
      log_sum_exp_def)

section \<open>The order of calls in a run\<close>

lemma made_calls_iff:
  "made_calls s calls r \<longleftrightarrow>
     (\<exists>ys. trace (snd r) = trace s @ ys \<and> prefix ys calls \<and> (\<not> isl (fst r) \<longrightarrow> ys = calls))"
proof
  assume m: "made_calls s calls r"
  then obtain ys where ys: "trace (snd r) = trace s @ ys"
    by (auto simp: made_calls_def prefix_def)
  with m have "prefix ys calls" and "\<not> isl (fst r) \<longrightarrow> ys = calls"
    by (simp_all add: made_calls_def)
  with ys show "\<exists>ys. trace (snd r) = trace s @ ys \<and> prefix ys calls \<and> (\<not> isl (fst r) \<longrightarrow> ys = calls)"
    by blast
next
  assume "\<exists>ys. trace (snd r) = trace s @ ys \<and> prefix ys calls \<and> (\<not> isl (fst r) \<longrightarrow> ys = calls)"
  then show "made_calls s calls r"
    by (auto simp: made_calls_def)
qed

lemma made_calls_raise:
  assumes "made_calls s A (Inl e, s1)"
  shows "made_calls s (A @ B) (Inl e, s1)"
proof -
  from assms obtain ys where "trace s1 = trace s @ ys" and "prefix ys A"
    by (auto simp: made_calls_iff)
  then show ?thesis
    by (auto simp: made_calls_iff intro: prefix_prefix)
qed

lemma made_calls_seq:
  assumes "made_calls s A (Inr x, s1)" and "made_calls s1 B r"
  shows "made_calls s (A @ B) (fst r, snd r)"
proof -
  from assms(1) have t1: "trace s1 = trace s @ A"
    by (simp add: made_calls_iff)
  from assms(2) obtain ys where ys: "trace (snd r) = trace s1 @ ys" "prefix ys B"
    "\<not> isl (fst r) \<longrightarrow> ys = B"
    by (auto simp: made_calls_iff)
  have "trace (snd r) = trace s @ (A @ ys)"
    using t1 ys(1) by simp
  moreover have "prefix (A @ ys) (A @ B)"
    using ys(2) by simp
  moreover have "\<not> isl (fst r) \<longrightarrow> A @ ys = A @ B"
    using ys(3) by simp
  ultimately show ?thesis
    unfolding made_calls_iff by (metis fst_conv snd_conv)
qed

lemma made_calls_log:
  "made_calls s [e] (Inr x, log_event e s)"
  by (simp add: made_calls_iff log_event_def)

lemma made_calls_same_trace:
  assumes "made_calls s A (res, s1)" and "trace s2 = trace s1"
  shows "made_calls s A (res, s2)"
  using assms by (simp add: made_calls_def)

lemma forward_layers_calls:
  "made_calls s (map CallLayer [k..<k + length layers]) (forward_layers lb k layers g h s)"
proof (induction layers arbitrary: k h s)
  case Nil
  show ?case by (simp add: made_calls_iff)
next
  case (Cons layer layers)
  obtain res r' where lc: "layer_call lb (training s) (params s) k layer g h (rng s) = (res, r')"
    by (cases "layer_call lb (training s) (params s) k layer g h (rng s)")
  let ?s1 = "log_event (CallLayer k) (s\<lparr>rng := r'\<rparr>)"
  have "map CallLayer [k..<k + length (layer # layers)]
        = map CallLayer (k # [Suc k..<Suc k + length layers])"
    by (rule arg_cong [OF upt_shift [symmetric]])
  then have split: "map CallLayer [k..<k + length (layer # layers)]
               = [CallLayer k] @ map CallLayer [Suc k..<Suc k + length layers]"
    by simp
  have first: "made_calls s [CallLayer k] (Inr u, ?s1)" for u :: unit
    by (simp add: made_calls_iff log_event_def)
  show ?case
  proof (cases res)
    case (Inl e)
    have "made_calls s [CallLayer k] (Inl e :: error + table, ?s1)"
      by (simp add: made_calls_iff log_event_def)
    then have "made_calls s ([CallLayer k] @ map CallLayer [Suc k..<Suc k + length layers])
                 (Inl e :: error + table, ?s1)"
      by (rule made_calls_raise)
    with Inl lc show ?thesis
      unfolding split by simp
  next
    case (Inr h')
    have "made_calls s ([CallLayer k] @ map CallLayer [Suc k..<Suc k + length layers])
            (fst (forward_layers lb (Suc k) layers g h' ?s1),
             snd (forward_layers lb (Suc k) layers g h' ?s1))"
      using first Cons.IH by (rule made_calls_seq)
    with Inr lc show ?thesis
      unfolding split by simp
  qed
qed


lemma made_calls_result:
  assumes "made_calls s A (r1, s1)" and "isl r1 \<Longrightarrow> isl r2"
  shows "made_calls s A (r2, s1)"
  using assms by (auto simp: made_calls_def)

lemma GraphSAGEModel_forward_calls:
  "made_calls s (layer_events layers) (GraphSAGEModel_forward lb layers g features s)"
  using forward_layers_calls [of s 0 layers lb g features]
  by (simp add: GraphSAGEModel_forward_def layer_events_def)

lemma NodeClassification_forward_calls:
  "made_calls s ([CallModel idx] @ layer_events layers)
     (NodeClassification_forward lb layers labels g features idx s)"
proof -
  let ?s0 = "log_event (CallModel idx) s"
  obtain resF sF where F: "GraphSAGEModel_forward lb layers g features ?s0 = (resF, sF)"
    by (cases "GraphSAGEModel_forward lb layers g features ?s0")
  define res where "res = fst (NodeClassification_forward lb layers labels g features idx s)"
  have "snd (NodeClassification_forward lb layers labels g features idx s) = sF"
    by (simp add: NodeClassification_forward_def F split: sum.splits)
  then have R: "NodeClassification_forward lb layers labels g features idx s = (res, sF)"
    by (simp add: res_def prod_eq_iff)
  have err: "isl resF \<Longrightarrow> isl res"
    by (auto simp: res_def NodeClassification_forward_def F split: sum.splits)
  have "made_calls ?s0 (layer_events layers) (resF, sF)"
    using GraphSAGEModel_forward_calls [of ?s0 layers lb g features] by (simp add: F)
  then have "made_calls ?s0 (layer_events layers) (res, sF)"
    using err by (rule made_calls_result)
  with made_calls_log [of s "CallModel idx" "()"]
  have "made_calls s ([CallModel idx] @ layer_events layers) (fst (res, sF), snd (res, sF))"
    by (rule made_calls_seq)
  then show ?thesis by (simp add: R)
qed

lemma NCEvaluate_calls:
  "made_calls s (evaluate_events layers idx) (NCEvaluate lb layers g features labels idx s)"
proof -
  let ?s0 = "model_eval (log_event (CallNCEvaluate idx) s)"
  obtain resF sF where F: "GraphSAGEModel_forward lb layers g features ?s0 = (resF, sF)"
    by (cases "GraphSAGEModel_forward lb layers g features ?s0")
  define res where "res = fst (NCEvaluate lb layers g features labels idx s)"
  have "snd (NCEvaluate lb layers g features labels idx s) = sF"
    by (simp add: NCEvaluate_def F Let_def split: sum.splits)
  then have R: "NCEvaluate lb layers g features labels idx s = (res, sF)"
    by (simp add: res_def prod_eq_iff)
  have err: "isl resF \<Longrightarrow> isl res"
    by (auto simp: res_def NCEvaluate_def F split: sum.splits)
  have "made_calls ?s0 (layer_events layers) (resF, sF)"
    using GraphSAGEModel_forward_calls [of ?s0 layers lb g features] by (simp add: F)
  then have rest: "made_calls ?s0 (layer_events layers) (res, sF)"
    using err by (rule made_calls_result)
  have "made_calls s [CallNCEvaluate idx, ModelEval] (Inr (), ?s0)"
    by (simp add: made_calls_iff model_eval_def log_event_def)
  from this rest
  have "made_calls s ([CallNCEvaluate idx, ModelEval] @ layer_events layers)
          (fst (res, sF), snd (res, sF))"
    by (rule made_calls_seq)
  then show ?thesis by (simp add: R evaluate_events_def)
qed

lemma train_epoch_calls:
  "made_calls s (epoch_events layers train_idx val_idx)
     (train_epoch lb layers g features labels train_idx val_idx epoch s)"
proof -
  let ?s1 = "model_train s"
  let ?A = "[ModelTrain] @ [CallModel train_idx] @ layer_events layers"
  obtain res2 s2 where F: "NodeClassification_forward lb layers labels g features train_idx ?s1
                           = (res2, s2)"
    by (cases "NodeClassification_forward lb layers labels g features train_idx ?s1")
  have "made_calls s [ModelTrain] (Inr (), ?s1)"
    by (simp add: made_calls_iff model_train_def log_event_def)
  moreover have "made_calls ?s1 ([CallModel train_idx] @ layer_events layers) (res2, s2)"
    using NodeClassification_forward_calls [of ?s1 train_idx layers lb labels g features]
    by (simp add: F)
  ultimately have fw: "made_calls s ?A (res2, s2)"
    using made_calls_seq by fastforce
  have ev: "epoch_events layers train_idx val_idx
            = (?A @ [ZeroGrad, Backward, OptimizerStep]) @ evaluate_events layers val_idx"
    by (simp add: epoch_events_def)
  show ?thesis
  proof (cases res2)
    case (Inl e)
    with fw have "made_calls s ?A (Inl e :: error + unit, s2)"
      by (auto elim: made_calls_result)
    then have "made_calls s (?A @ [ZeroGrad, Backward, OptimizerStep]
                 @ evaluate_events layers val_idx) (Inl e :: error + unit, s2)"
      by (rule made_calls_raise)
    with Inl F show ?thesis
      by (simp add: train_epoch_def ev)
  next
    case (Inr loss)
    let ?s5 = "optimizer_step lb (loss_backward lb (rng ?s1) train_idx (optimizer_zero_grad lb s2))"
    have "trace ?s5 = trace s2 @ [ZeroGrad, Backward, OptimizerStep]"
      by (simp add: optimizer_step_def loss_backward_def optimizer_zero_grad_def log_event_def
          split: prod.splits)
    then have "made_calls s2 [ZeroGrad, Backward, OptimizerStep] (Inr (), ?s5)"
      by (simp add: made_calls_iff)
    with fw Inr have upd: "made_calls s (?A @ [ZeroGrad, Backward, OptimizerStep]) (Inr (), ?s5)"
      using made_calls_seq by fastforce
    obtain res6 s6 where E: "NCEvaluate lb layers g features labels val_idx ?s5 = (res6, s6)"
      by (cases "NCEvaluate lb layers g features labels val_idx ?s5")
    have "made_calls ?s5 (evaluate_events layers val_idx) (res6, s6)"
      using NCEvaluate_calls [of ?s5 layers val_idx lb g features labels] by (simp add: E)
    with upd have all: "made_calls s (epoch_events layers train_idx val_idx) (res6, s6)"
      unfolding ev using made_calls_seq by fastforce
    show ?thesis
    proof (cases res6)
      case (Inl e)
      with all have "made_calls s (epoch_events layers train_idx val_idx) (Inl e :: error + unit, s6)"
        by (auto elim: made_calls_result)
      with Inl Inr F E show ?thesis
        by (simp add: train_epoch_def Let_def)
    next
      case acc: (Inr acc)
      from all have "made_calls s (epoch_events layers train_idx val_idx) (Inr () :: error + unit, s6)"
        by (rule made_calls_result) (simp add: acc)
      then have "made_calls s (epoch_events layers train_idx val_idx)
                   (Inr () :: error + unit, print_line (EpochLine epoch loss acc) s6)"
        by (rule made_calls_same_trace) (simp add: print_line_def)
      with acc Inr F E show ?thesis
        by (simp add: train_epoch_def Let_def)
    qed
  qed
qed

lemma epochs_loop_calls:
  "made_calls s (concat (replicate (length epochs) (epoch_events layers train_idx val_idx)))
     (epochs_loop lb layers g features labels train_idx val_idx epochs s)"
proof (induction epochs arbitrary: s)
  case Nil
  show ?case by (simp add: made_calls_iff)
next
  case (Cons epoch epochs)
  let ?E = "epoch_events layers train_idx val_idx"
  obtain res s1 where T: "train_epoch lb layers g features labels train_idx val_idx epoch s = (res, s1)"
    by (cases "train_epoch lb layers g features labels train_idx val_idx epoch s")
  have one: "made_calls s ?E (res, s1)"
    using train_epoch_calls [of s layers train_idx val_idx lb g features labels epoch]
    by (simp add: T)
  show ?case
  proof (cases res)
    case (Inl e)
    with one have "made_calls s (?E @ concat (replicate (length epochs) ?E)) (Inl e :: error + unit, s1)"
      by (auto intro: made_calls_raise)
    with Inl T show ?thesis by simp
  next
    case (Inr u)
    with one have "made_calls s ?E (Inr u, s1)" by simp
    from this Cons.IH [of s1]
    have "made_calls s (?E @ concat (replicate (length epochs) ?E))
            (fst (epochs_loop lb layers g features labels train_idx val_idx epochs s1),
             snd (epochs_loop lb layers g features labels train_idx val_idx epochs s1))"
      by (rule made_calls_seq)
    with Inr T show ?thesis by simp
  qed
qed

section \<open>The state after a run\<close>

text \<open>
  What a forward pass returns depends on the state only through the training flag,
  the parameters and the generator.
\<close>

lemma forward_layers_reads:
  assumes "training s = training t" and "params s = params t" and "rng s = rng t"
  shows "fst (forward_layers lb k layers g h s) = fst (forward_layers lb k layers g h t)"
  using assms
proof (induction layers arbitrary: k h s t)
  case Nil
  show ?case by simp
next
  case (Cons layer layers)
  obtain r1 r' where lc: "layer_call lb (training s) (params s) k layer g h (rng s) = (r1, r')"
    by (cases "layer_call lb (training s) (params s) k layer g h (rng s)")
  then have lt: "layer_call lb (training t) (params t) k layer g h (rng t) = (r1, r')"
    using Cons.prems by simp
  show ?case
  proof (cases r1)
    case (Inl e)
    with lc lt show ?thesis by simp
  next
    case (Inr h')
    let ?s1 = "log_event (CallLayer k) (s\<lparr>rng := r'\<rparr>)"
    let ?t1 = "log_event (CallLayer k) (t\<lparr>rng := r'\<rparr>)"
    have "fst (forward_layers lb (Suc k) layers g h' ?s1)
          = fst (forward_layers lb (Suc k) layers g h' ?t1)"
      using Cons.prems by (intro Cons.IH) (simp_all add: log_event_def)
    with Inr lc lt show ?thesis by simp
  qed
qed

lemma NodeClassification_forward_reads:
  assumes "training s = training t" and "params s = params t" and "rng s = rng t"
  shows "fst (NodeClassification_forward lb layers labels g features idx s)
         = fst (NodeClassification_forward lb layers labels g features idx t)"
proof -
  let ?s0 = "log_event (CallModel idx) s"
  let ?t0 = "log_event (CallModel idx) t"
  have eq: "fst (forward_layers lb 0 layers g features ?s0)
            = fst (forward_layers lb 0 layers g features ?t0)"
    using assms by (intro forward_layers_reads) (simp_all add: log_event_def)
  obtain a sa where A: "forward_layers lb 0 layers g features ?s0 = (a, sa)"
    by (cases "forward_layers lb 0 layers g features ?s0")
  obtain b sb where B: "forward_layers lb 0 layers g features ?t0 = (b, sb)"
    by (cases "forward_layers lb 0 layers g features ?t0")
  from eq A B have "a = b" by simp
  with A B show ?thesis
    by (simp add: NodeClassification_forward_def GraphSAGEModel_forward_def
        split: sum.splits)
qed

lemma train_epoch_done:
  assumes "train_epoch lb layers g features labels train_idx val_idx epoch s = (Inr u, s')"
  shows "epoch_done lb layers g features labels train_idx val_idx epoch s s'"
proof -
  have mode: "fst (NodeClassification_forward lb layers labels g features train_idx (model_train s))
        = fst (NodeClassification_forward lb layers labels g features train_idx
                 (s\<lparr>training := True\<rparr>))"
    by (intro NodeClassification_forward_reads) (simp_all add: model_train_def log_event_def)
  from assms obtain loss acc s5 where
    l: "fst (NodeClassification_forward lb layers labels g features train_idx (model_train s))
        = Inr loss"
    and rest: "grads s' = backward lb (params s) (rng s) train_idx (zero_grad lb (grads s))"
    "params s' = fst (adam_step lb (optim s) (params s) (grads s'))"
    "optim s' = snd (adam_step lb (optim s) (params s) (grads s'))"
    "params s5 = params s'"
    "fst (NCEvaluate lb layers g features labels val_idx s5) = Inr acc"
    "stdout s' = stdout s @ [EpochLine epoch loss acc]"
    by (rule train_epoch_state)
  from l mode have "fst (NodeClassification_forward lb layers labels g features train_idx
                           (s\<lparr>training := True\<rparr>)) = Inr loss"
    by simp
  with rest show ?thesis
    unfolding epoch_done_def by blast
qed

lemma epochs_loop_done:
  "epochs_loop lb layers g features labels train_idx val_idx epochs s = (Inr u, s')
   \<Longrightarrow> epochs_done lb layers g features labels train_idx val_idx epochs s s'"
proof (induction epochs arbitrary: s)
  case Nil
  then show ?case
    by (simp add: epochs_done.no_epoch)
next
  case (Cons epoch epochs)
  obtain res s1 where T: "train_epoch lb layers g features labels train_idx val_idx epoch s = (res, s1)"
    by (cases "train_epoch lb layers g features labels train_idx val_idx epoch s")
  from Cons.prems T obtain v where res: "res = Inr v"
    by (cases res) auto
  from T res have "epoch_done lb layers g features labels train_idx val_idx epoch s s1"
    by (intro train_epoch_done) simp
  moreover from Cons.prems T res
  have "epochs_loop lb layers g features labels train_idx val_idx epochs s1 = (Inr u, s')"
    by simp
  then have "epochs_done lb layers g features labels train_idx val_idx epochs s1 s'"
    by (rule Cons.IH)
  ultimately show ?case
    by (rule epochs_done.one_more)
qed

text \<open>
  Every epoch done is one update of the optimizer: whatever counts the updates in the
  optimizer's state has advanced by the number of epochs.
\<close>

lemma epochs_done_steps:
  assumes "epochs_done lb layers g features labels train_idx val_idx epochs s s'"
    and "\<forall>m p d. steps (snd (adam_step lb m p d)) = Suc (steps m)"
  shows "steps (optim s') = steps (optim s) + length epochs"
  using assms
proof (induction rule: epochs_done.induct)
  case (no_epoch s)
  show ?case by simp
next
  case (one_more epoch s s1 epochs s')
  from one_more.hyps(1) one_more.prems have "steps (optim s1) = Suc (steps (optim s))"
    by (simp add: epoch_done_def)
  with one_more.IH [OF one_more.prems] show ?case
    by simp
qed

text \<open>Every epoch done has printed its line, and nothing else was printed.\<close>

lemma epochs_done_lines:
  assumes "epochs_done lb layers g features labels train_idx val_idx epochs s s'"
  shows "\<exists>ls. stdout s' = stdout s @ ls \<and> length ls = length epochs
              \<and> (\<forall>k < length epochs. \<exists>loss acc. ls ! k = EpochLine (epochs ! k) loss acc)"
  using assms
proof (induction rule: epochs_done.induct)
  case (no_epoch s)
  show ?case by simp
next
  case (one_more epoch s s1 epochs s')
  from one_more.hyps(1) obtain loss acc where
    first: "stdout s1 = stdout s @ [EpochLine epoch loss acc]"
    by (auto simp: epoch_done_def)
  from one_more.IH obtain ls where
    rest: "stdout s' = stdout s1 @ ls" "length ls = length epochs"
      "\<forall>k < length epochs. \<exists>loss acc. ls ! k = EpochLine (epochs ! k) loss acc"
    by blast
  let ?ls = "EpochLine epoch loss acc # ls"
  have "stdout s' = stdout s @ ?ls"
    using first rest(1) by simp
  moreover have "length ?ls = length (epoch # epochs)"
    using rest(2) by simp
  moreover have "\<exists>loss acc. ?ls ! k = EpochLine ((epoch # epochs) ! k) loss acc"
    if "k < length (epoch # epochs)" for k
  proof (cases k)
    case 0
    then show ?thesis by simp
  next
    case (Suc j)
    with that have "j < length epochs" by simp
    with rest(3) Suc show ?thesis by simp
  qed
  ultimately show ?case
    by blast
qed

text \<open>
  A run that did not raise: the epochs, the blank line, the evaluation on the test
  subset and the last line.
\<close>

lemma training_loop_success:
  assumes "training_loop lb layers g features labels train_idx val_idx test_idx n_epochs s
           = (Inr u, s')"
  obtains s1 acc s3 where
    "epochs_loop lb layers g features labels train_idx val_idx [0..<nat n_epochs] s = (Inr (), s1)"
    "NCEvaluate lb layers g features labels test_idx (print_line BlankLine s1) = (Inr acc, s3)"
    "s' = print_line (TestLine acc) s3"
proof -
  obtain res s1 where L: "epochs_loop lb layers g features labels train_idx val_idx
                            [0..<nat n_epochs] s = (res, s1)"
    by (cases "epochs_loop lb layers g features labels train_idx val_idx [0..<nat n_epochs] s")
  from assms L have res: "res = Inr ()"
    by (cases res) (auto simp: training_loop_def)
  obtain res3 s3 where E: "NCEvaluate lb layers g features labels test_idx
                             (print_line BlankLine s1) = (res3, s3)"
    by (cases "NCEvaluate lb layers g features labels test_idx (print_line BlankLine s1)")
  from assms L res E obtain acc where res3: "res3 = Inr acc"
    by (cases res3) (auto simp: training_loop_def)
  from assms L res E res3 have "s' = print_line (TestLine acc) s3"
    by (simp add: training_loop_def)
  with L res E res3 that show ?thesis
    by blast
qed

text \<open>
  Claim C7. A run of the training cell makes the calls of \<open>n_epochs\<close> epochs, each a
  training step (\<^verbatim>\<open>model.train()\<close>, the forward call on the training subset with its
  layer calls, \<^verbatim>\<open>zero_grad\<close>, \<^verbatim>\<open>backward\<close>, one optimizer step) followed at once by one
  evaluation on the validation subset, and after the last epoch one evaluation on the
  test subset. If the run ends without an exception its calls are exactly these, in
  this order; if an exception ends it early, its calls are an initial part of them. A
  negative \<open>n_epochs\<close> runs no epoch.

  The calls have done their work. When the run ends without an exception, the state
  has gone through the epochs \<open>0, \<dots>, n_epochs - 1\<close> one after the other, each of them
  leaving the gradient of the loss on the training subset in the buffers, the
  parameters and the optimizer's state updated once from it, and one line printed
  with the loss of the forward call in training mode on the training subset and the
  accuracy on the validation subset computed with the updated parameters; the
  evaluation on the test subset then changes none of the three, is made with the
  parameters of the last epoch, and its accuracy is printed after a blank line. In
  particular, whatever counts updates in the optimizer's state has advanced by exactly
  \<open>n_epochs\<close>, and the output is one line per epoch, in the order of the epochs,
  followed by the blank line and the test line.
\<close>

theorem training_loop_call_order:
  "prefix (trace s)
     (trace (snd (training_loop lb layers g features labels train_idx val_idx test_idx n_epochs s)))
   \<and> prefix
       (trace (snd (training_loop lb layers g features labels train_idx val_idx test_idx n_epochs s)))
       (trace s @ run_events layers train_idx val_idx test_idx (nat n_epochs))
   \<and> (fst (training_loop lb layers g features labels train_idx val_idx test_idx n_epochs s) = Inr ()
      \<longrightarrow> trace (snd (training_loop lb layers g features labels train_idx val_idx test_idx
                          n_epochs s))
          = trace s @ run_events layers train_idx val_idx test_idx (nat n_epochs))
   \<and> (fst (training_loop lb layers g features labels train_idx val_idx test_idx n_epochs s) = Inr ()
      \<longrightarrow> (\<exists>s1 s2 acc.
             epochs_done lb layers g features labels train_idx val_idx [0..<nat n_epochs] s s1
             \<and> params (snd (training_loop lb layers g features labels train_idx val_idx test_idx
                               n_epochs s)) = params s1
             \<and> optim (snd (training_loop lb layers g features labels train_idx val_idx test_idx
                              n_epochs s)) = optim s1
             \<and> grads (snd (training_loop lb layers g features labels train_idx val_idx test_idx
                              n_epochs s)) = grads s1
             \<and> params s2 = params s1
             \<and> fst (NCEvaluate lb layers g features labels test_idx s2) = Inr acc
             \<and> stdout (snd (training_loop lb layers g features labels train_idx val_idx test_idx
                               n_epochs s)) = stdout s1 @ [BlankLine, TestLine acc]))
   \<and> (fst (training_loop lb layers g features labels train_idx val_idx test_idx n_epochs s) = Inr ()
      \<and> (\<forall>m p d. steps (snd (adam_step lb m p d)) = Suc (steps m))
      \<longrightarrow> steps (optim (snd (training_loop lb layers g features labels train_idx val_idx test_idx
                                n_epochs s)))
          = steps (optim s) + nat n_epochs)
   \<and> (fst (training_loop lb layers g features labels train_idx val_idx test_idx n_epochs s) = Inr ()
      \<longrightarrow> (\<exists>ls acc.
             stdout (snd (training_loop lb layers g features labels train_idx val_idx test_idx
                            n_epochs s)) = stdout s @ ls @ [BlankLine, TestLine acc]
             \<and> length ls = nat n_epochs
             \<and> (\<forall>k < nat n_epochs. \<exists>loss a. ls ! k = EpochLine k loss a)))"
proof -
  let ?E = "epoch_events layers train_idx val_idx"
  let ?n = "nat n_epochs"
  let ?R = "training_loop lb layers g features labels train_idx val_idx test_idx n_epochs s"
  obtain res s1 where L: "epochs_loop lb layers g features labels train_idx val_idx [0..<?n] s
                          = (res, s1)"
    by (cases "epochs_loop lb layers g features labels train_idx val_idx [0..<?n] s")
  have loop: "made_calls s (concat (replicate ?n ?E)) (res, s1)"
    using epochs_loop_calls [of s "[0..<?n]" layers train_idx val_idx lb g features labels]
    by (simp add: L)
  have all: "made_calls s (run_events layers train_idx val_idx test_idx ?n) ?R"
  proof (cases res)
    case (Inl e)
    with loop have "made_calls s (concat (replicate ?n ?E) @ evaluate_events layers test_idx)
                      (Inl e :: error + unit, s1)"
      by (auto intro: made_calls_raise)
    with Inl L show ?thesis
      by (simp add: training_loop_def run_events_def)
  next
    case (Inr u)
    let ?s2 = "print_line BlankLine s1"
    obtain res3 s3 where E: "NCEvaluate lb layers g features labels test_idx ?s2 = (res3, s3)"
      by (cases "NCEvaluate lb layers g features labels test_idx ?s2")
    from loop Inr have "made_calls s (concat (replicate ?n ?E)) (Inr u, ?s2)"
      by (auto intro: made_calls_same_trace simp: print_line_def)
    moreover have "made_calls ?s2 (evaluate_events layers test_idx) (res3, s3)"
      using NCEvaluate_calls [of ?s2 layers test_idx lb g features labels] by (simp add: E)
    ultimately have run: "made_calls s (run_events layers train_idx val_idx test_idx ?n) (res3, s3)"
      unfolding run_events_def using made_calls_seq by fastforce
    show ?thesis
    proof (cases res3)
      case (Inl e)
      with run have "made_calls s (run_events layers train_idx val_idx test_idx ?n)
                       (Inl e :: error + unit, s3)"
        by (auto elim: made_calls_result)
      with Inl Inr L E show ?thesis
        by (simp add: training_loop_def)
    next
      case acc: (Inr acc)
      from run have "made_calls s (run_events layers train_idx val_idx test_idx ?n)
                       (Inr () :: error + unit, s3)"
        by (rule made_calls_result) (simp add: acc)
      then have "made_calls s (run_events layers train_idx val_idx test_idx ?n)
                   (Inr () :: error + unit, print_line (TestLine acc) s3)"
        by (rule made_calls_same_trace) (simp add: print_line_def)
      with acc Inr L E show ?thesis
        by (simp add: training_loop_def)
    qed
  qed
  then have calls: "prefix (trace s) (trace (snd ?R))"
    "prefix (trace (snd ?R)) (trace s @ run_events layers train_idx val_idx test_idx ?n)"
    "fst ?R = Inr () \<longrightarrow> trace (snd ?R) = trace s @ run_events layers train_idx val_idx test_idx ?n"
    unfolding made_calls_def by auto
  have state: "\<exists>s1 s2 acc.
             epochs_done lb layers g features labels train_idx val_idx [0..<?n] s s1
             \<and> params (snd ?R) = params s1 \<and> optim (snd ?R) = optim s1
             \<and> grads (snd ?R) = grads s1 \<and> params s2 = params s1
             \<and> fst (NCEvaluate lb layers g features labels test_idx s2) = Inr acc
             \<and> stdout (snd ?R) = stdout s1 @ [BlankLine, TestLine acc]"
    if ok: "fst ?R = Inr ()"
  proof -
    from ok have "?R = (Inr (), snd ?R)"
      by (cases ?R) simp
    then obtain t1 acc t3 where
      loop: "epochs_loop lb layers g features labels train_idx val_idx [0..<?n] s = (Inr (), t1)"
      and ev: "NCEvaluate lb layers g features labels test_idx (print_line BlankLine t1)
               = (Inr acc, t3)"
      and fin: "snd ?R = print_line (TestLine acc) t3"
      by (rule training_loop_success)
    let ?t2 = "print_line BlankLine t1"
    have t3: "params t3 = params ?t2" "grads t3 = grads ?t2" "optim t3 = optim ?t2"
      "stdout t3 = stdout ?t2"
      using NCEvaluate_frame [of lb layers g features labels test_idx ?t2] ev by simp_all
    have "epochs_done lb layers g features labels train_idx val_idx [0..<?n] s t1"
      using loop by (rule epochs_loop_done)
    moreover have "params (snd ?R) = params t1" "optim (snd ?R) = optim t1"
      "grads (snd ?R) = grads t1"
      using fin t3 by (simp_all add: print_line_def)
    moreover have "params ?t2 = params t1"
      by (simp add: print_line_def)
    moreover have "fst (NCEvaluate lb layers g features labels test_idx ?t2) = Inr acc"
      using ev by simp
    moreover have "stdout (snd ?R) = stdout t1 @ [BlankLine, TestLine acc]"
      using fin t3 by (simp add: print_line_def)
    ultimately show ?thesis
      by blast
  qed
  have count: "steps (optim (snd ?R)) = steps (optim s) + ?n"
    if a: "fst ?R = Inr () \<and> (\<forall>m p d. steps (snd (adam_step lb m p d)) = Suc (steps m))"
  proof -
    from a state obtain t1 where
      "epochs_done lb layers g features labels train_idx val_idx [0..<?n] s t1"
      and "optim (snd ?R) = optim t1"
      by blast
    with a epochs_done_steps [of lb layers g features labels train_idx val_idx "[0..<?n]" s t1 steps]
    show ?thesis
      by simp
  qed
  have lines: "\<exists>ls acc. stdout (snd ?R) = stdout s @ ls @ [BlankLine, TestLine acc]
             \<and> length ls = ?n \<and> (\<forall>k < ?n. \<exists>loss a. ls ! k = EpochLine k loss a)"
    if ok: "fst ?R = Inr ()"
  proof -
    from state [OF ok] obtain t1 acc where
      chain: "epochs_done lb layers g features labels train_idx val_idx [0..<?n] s t1"
      and out: "stdout (snd ?R) = stdout t1 @ [BlankLine, TestLine acc]"
      by blast
    from epochs_done_lines [OF chain] obtain ls where
      ls: "stdout t1 = stdout s @ ls" "length ls = ?n"
        "\<forall>k < ?n. \<exists>loss a. ls ! k = EpochLine ([0..<?n] ! k) loss a"
      by auto
    from ls(3) have "\<forall>k < ?n. \<exists>loss a. ls ! k = EpochLine k loss a"
      by simp
    with out ls(1,2) show ?thesis
      by auto
  qed
  from calls state count lines show ?thesis
    by blast
qed

text \<open>
  Two epochs on the chain, with nodes 0 and 1 for training, 2 and 3 for validation, 4
  for test; the optimizer stand-in counts its updates in its state.
\<close>

theorem training_loop_call_order_witness:
  "training_loop small_lib small_model chain_graph chain_features chain_labels
     [0, 1] [2, 3] [4] 2 (small_state 0)
   = (Inr (),
      \<lparr>params = 2, grads = (), optim = 2, training = False, rng = 4,
       stdout = [EpochLine 0 (Num (ln 2)) (1 / 2), EpochLine 1 (Num (ln 2)) (1 / 2),
                 BlankLine, TestLine 1],
       trace =
         [ModelTrain, CallModel [0, 1], CallLayer 0, CallLayer 1, ZeroGrad, Backward, OptimizerStep,
          CallNCEvaluate [2, 3], ModelEval, CallLayer 0, CallLayer 1,
          ModelTrain, CallModel [0, 1], CallLayer 0, CallLayer 1, ZeroGrad, Backward, OptimizerStep,
          CallNCEvaluate [2, 3], ModelEval, CallLayer 0, CallLayer 1,
          CallNCEvaluate [4], ModelEval, CallLayer 0, CallLayer 1]\<rparr>)"
  using training_loop_call_order [of "small_state 0" small_lib small_model chain_graph
      chain_features chain_labels "[0, 1]" "[2, 3]" "[4]" 2 "\<lambda>n. n"]
  by (simp add: small_defs run_defs training_loop_def train_epoch_def model_train_def
      optimizer_zero_grad_def loss_backward_def optimizer_step_def print_line_def
      CrossEntropyLoss_def row_loss_def log_sum_exp_def)

section \<open>Evaluation mode\<close>

lemma forward_layers_eval_det:
  assumes H: "\<forall>p k layer g h r r'. fst (layer_call lb False p k layer g h r)
                                   = fst (layer_call lb False p k layer g h r')"
    and "training s = False" and "training t = False" and "params s = params t"
  shows "fst (forward_layers lb k layers g h s) = fst (forward_layers lb k layers g h t)"
  using assms(2-)
proof (induction layers arbitrary: k h s t)
  case Nil
  show ?case by simp
next
  case (Cons layer layers)
  obtain a ra where ls: "layer_call lb False (params t) k layer g h (rng s) = (a, ra)"
    by (cases "layer_call lb False (params t) k layer g h (rng s)")
  obtain b rb where lt: "layer_call lb False (params t) k layer g h (rng t) = (b, rb)"
    by (cases "layer_call lb False (params t) k layer g h (rng t)")
  from H have "fst (layer_call lb False (params t) k layer g h (rng s))
               = fst (layer_call lb False (params t) k layer g h (rng t))"
    by blast
  with ls lt have "a = b" by simp
  with lt have lt': "layer_call lb False (params t) k layer g h (rng t) = (a, rb)"
    by simp
  from Cons.prems have flags: "training s = False" "training t = False" "params s = params t"
    by simp_all
  show ?case
  proof (cases a)
    case (Inl e)
    show ?thesis
      by (simp add: flags ls lt' Inl)
  next
    case (Inr h')
    let ?s1 = "log_event (CallLayer k) (s\<lparr>rng := ra\<rparr>)"
    let ?t1 = "log_event (CallLayer k) (t\<lparr>rng := rb\<rparr>)"
    have "training ?s1 = False" "training ?t1 = False" "params ?s1 = params ?t1"
      using Cons.prems by (simp_all add: log_event_def)
    then have "fst (forward_layers lb (Suc k) layers g h' ?s1)
               = fst (forward_layers lb (Suc k) layers g h' ?t1)"
      by (rule Cons.IH)
    then show ?thesis
      by (simp add: flags ls lt' Inr)
  qed
qed

text \<open>
  Claim C5. Let the layers be such that in evaluation mode the table a layer returns
  does not depend on the random generator (dropout is disabled). Then the stack's
  output in evaluation mode is a function of the parameters, the graph and the input
  table alone: two runs from states with the same parameters give the same table (or
  the same exception), in particular a second run started where the first one ended,
  and two calls of \<^verbatim>\<open>NCEvaluate\<close> give the same accuracy.
\<close>

theorem eval_mode_deterministic:
  fixes lb :: "('a, 'b, 'c, 'd, 'e, 'f) lib"
  assumes H: "\<forall>p k layer g h r r'. fst (layer_call lb False p k layer g h r)
                                   = fst (layer_call lb False p k layer g h r')"
    and same: "params s = params t"
  shows "fst (GraphSAGEModel_forward lb layers g features (model_eval s))
         = fst (GraphSAGEModel_forward lb layers g features (model_eval t))
     \<and> fst (GraphSAGEModel_forward lb layers g features
              (snd (GraphSAGEModel_forward lb layers g features (model_eval s))))
       = fst (GraphSAGEModel_forward lb layers g features (model_eval s))
     \<and> fst (NCEvaluate lb layers g features labels idx s)
       = fst (NCEvaluate lb layers g features labels idx t)"
proof -
  have det: "fst (GraphSAGEModel_forward lb layers g features u)
             = fst (GraphSAGEModel_forward lb layers g features v)"
    if "training u = False" "training v = False" "params u = params v"
    for u v :: "('c, 'd, 'e, 'f) run_state"
    unfolding GraphSAGEModel_forward_def using H that by (rule forward_layers_eval_det)
  have ev: "training (model_eval u) = False" "params (model_eval u) = params u"
    for u :: "('c, 'd, 'e, 'f) run_state"
    by (simp_all add: model_eval_def log_event_def)
  have one: "fst (GraphSAGEModel_forward lb layers g features (model_eval s))
         = fst (GraphSAGEModel_forward lb layers g features (model_eval t))"
    using same by (intro det) (simp_all add: ev)
  let ?s1 = "snd (GraphSAGEModel_forward lb layers g features (model_eval s))"
  have "training ?s1 = False" and "params ?s1 = params (model_eval s)"
    using GraphSAGEModel_forward_frame [of lb layers g features "model_eval s"]
    by (simp_all add: ev)
  then have two: "fst (GraphSAGEModel_forward lb layers g features ?s1)
       = fst (GraphSAGEModel_forward lb layers g features (model_eval s))"
    by (intro det) (simp_all add: ev)
  let ?u = "model_eval (log_event (CallNCEvaluate idx) s)"
  let ?v = "model_eval (log_event (CallNCEvaluate idx) t)"
  have "fst (GraphSAGEModel_forward lb layers g features ?u)
        = fst (GraphSAGEModel_forward lb layers g features ?v)"
    using same by (intro det) (simp_all add: ev log_event_def)
  then have three: "fst (NCEvaluate lb layers g features labels idx s)
       = fst (NCEvaluate lb layers g features labels idx t)"
    by (cases "GraphSAGEModel_forward lb layers g features ?u";
        cases "GraphSAGEModel_forward lb layers g features ?v")
       (auto simp: NCEvaluate_def Let_def split: sum.splits)
  from one two three show ?thesis by blast
qed

text \<open>
  On the chain, from two generator states, with the aggregation layer of the design
  document, whose evaluation mode skips the dropout mask.
\<close>

theorem eval_mode_deterministic_witness:
  "fst (GraphSAGEModel_forward small_lib small_model chain_graph chain_features
          (model_eval (small_state 0)))
   = fst (GraphSAGEModel_forward small_lib small_model chain_graph chain_features
          (model_eval (small_state 7)))
   \<and> fst (GraphSAGEModel_forward small_lib small_model chain_graph chain_features
          (model_eval (small_state 0)))
     = Inr [[7 / 12, 5 / 12], [1 / 2, 1 / 2], [5 / 9, 4 / 9], [1 / 2, 1 / 2], [7 / 12, 5 / 12]]
   \<and> fst (NCEvaluate small_lib small_model chain_graph chain_features chain_labels [0, 1, 2]
            (small_state 0))
     = fst (NCEvaluate small_lib small_model chain_graph chain_features chain_labels [0, 1, 2]
            (small_state 7))"
proof -
  have H: "\<forall>p k layer g h r r'. fst (layer_call small_lib False p k layer g h r)
                                = fst (layer_call small_lib False p k layer g h r')"
    by (simp add: small_lib_def SAGEConv_forward_def)
  have same: "params (small_state 0) = params (small_state 7)"
    by (simp add: small_state_def)
  show ?thesis
    using eval_mode_deterministic [OF H same, of small_model chain_graph chain_features chain_labels "[0, 1, 2]"]
    by (simp add: small_defs run_defs)
qed

section \<open>Who writes the parameters\<close>

text \<open>
  Claim C8. \<^verbatim>\<open>NCEvaluate\<close> leaves the parameters as they were, and with them the
  gradient buffers and the optimizer's state. Of the operations of a run,
  \<^verbatim>\<open>model.train()\<close>, the forward call, \<^verbatim>\<open>zero_grad\<close>, \<^verbatim>\<open>backward\<close> and \<^verbatim>\<open>print\<close> leave
  the parameters unchanged as well; \<^verbatim>\<open>optimizer.step()\<close> replaces them by the
  optimizer's update. Hence after an epoch that did not raise the parameters are the
  result of exactly one update, computed from the parameters, optimizer state and
  gradient of that epoch.
\<close>

theorem parameters_written_by_optimizer_only:
  "params (snd (NCEvaluate lb layers g features labels idx s)) = params s
   \<and> grads (snd (NCEvaluate lb layers g features labels idx s)) = grads s
   \<and> optim (snd (NCEvaluate lb layers g features labels idx s)) = optim s
   \<and> params (model_train s) = params s
   \<and> params (snd (NodeClassification_forward lb layers labels g features idx s)) = params s
   \<and> params (optimizer_zero_grad lb s) = params s
   \<and> params (loss_backward lb r idx s) = params s
   \<and> params (print_line l s) = params s
   \<and> params (optimizer_step lb s) = fst (adam_step lb (optim s) (params s) (grads s))
   \<and> (fst (train_epoch lb layers g features labels train_idx val_idx epoch s) = Inr ()
      \<longrightarrow> params (snd (train_epoch lb layers g features labels train_idx val_idx epoch s))
          = fst (adam_step lb (optim s) (params s)
                   (backward lb (params s) (rng s) train_idx (zero_grad lb (grads s)))))"
proof -
  have ev: "params (snd (NCEvaluate lb layers g features labels idx u)) = params u
   \<and> grads (snd (NCEvaluate lb layers g features labels idx u)) = grads u
   \<and> optim (snd (NCEvaluate lb layers g features labels idx u)) = optim u" for idx u
    using NCEvaluate_frame [of lb layers g features labels idx u] by simp
  have fw: "params (snd (NodeClassification_forward lb layers labels g features idx u)) = params u
   \<and> grads (snd (NodeClassification_forward lb layers labels g features idx u)) = grads u
   \<and> optim (snd (NodeClassification_forward lb layers labels g features idx u)) = optim u"
    for idx u
    using NodeClassification_forward_frame [of lb layers labels g features idx u] by simp
  have simple: "params (model_train s) = params s" "params (optimizer_zero_grad lb s) = params s"
    "params (loss_backward lb r idx s) = params s" "params (print_line l s) = params s"
    by (simp_all add: model_train_def optimizer_zero_grad_def loss_backward_def print_line_def
        log_event_def)
  have step: "params (optimizer_step lb u) = fst (adam_step lb (optim u) (params u) (grads u))"
    for u
    by (simp add: optimizer_step_def log_event_def split: prod.splits)
  have epoch: "params (snd (train_epoch lb layers g features labels train_idx val_idx epoch s))
          = fst (adam_step lb (optim s) (params s)
                   (backward lb (params s) (rng s) train_idx (zero_grad lb (grads s))))"
    if ok: "fst (train_epoch lb layers g features labels train_idx val_idx epoch s) = Inr ()"
  proof -
    let ?s1 = "model_train s"
    obtain res2 s2 where F: "NodeClassification_forward lb layers labels g features train_idx ?s1
                             = (res2, s2)"
      by (cases "NodeClassification_forward lb layers labels g features train_idx ?s1")
    from ok F obtain loss where res2: "res2 = Inr loss"
      by (cases res2) (auto simp: train_epoch_def)
    have s2: "params s2 = params s" "grads s2 = grads s" "optim s2 = optim s"
      using fw [of train_idx ?s1] F by (simp_all add: model_train_def log_event_def)
    let ?s4 = "loss_backward lb (rng ?s1) train_idx (optimizer_zero_grad lb s2)"
    let ?s5 = "optimizer_step lb ?s4"
    have s4: "params ?s4 = params s" "optim ?s4 = optim s"
      "grads ?s4 = backward lb (params s) (rng s) train_idx (zero_grad lb (grads s))"
      using s2 by (simp_all add: loss_backward_def optimizer_zero_grad_def model_train_def
          log_event_def)
    have s5: "params ?s5 = fst (adam_step lb (optim s) (params s)
                   (backward lb (params s) (rng s) train_idx (zero_grad lb (grads s))))"
      unfolding step s4 ..
    obtain res6 s6 where E: "NCEvaluate lb layers g features labels val_idx ?s5 = (res6, s6)"
      by (cases "NCEvaluate lb layers g features labels val_idx ?s5")
    have s6: "params s6 = params ?s5"
      using ev [of val_idx ?s5] E by simp
    have "params (snd (train_epoch lb layers g features labels train_idx val_idx epoch s))
          = params s6"
      using F res2 E by (cases res6) (simp_all add: train_epoch_def Let_def print_line_def)
    with s6 s5 show ?thesis by simp
  qed
  from ev [of idx s] fw [of idx s] simple step [of s] epoch show ?thesis by blast
qed

theorem parameters_written_by_optimizer_only_witness:
  "params (snd (NCEvaluate small_lib small_model chain_graph chain_features chain_labels
                  [0, 1, 2] (small_state 0))) = 0
   \<and> fst (train_epoch small_lib small_model chain_graph chain_features chain_labels
            [0, 1] [2, 3] 0 (small_state 0)) = Inr ()
   \<and> params (snd (train_epoch small_lib small_model chain_graph chain_features chain_labels
                    [0, 1] [2, 3] 0 (small_state 0))) = 1"
  using parameters_written_by_optimizer_only [of small_lib small_model chain_graph
      chain_features chain_labels "[0, 1, 2]" "small_state 0" 0 BlankLine "[0, 1]" "[2, 3]" 0]
  by (simp add: small_defs run_defs train_epoch_def model_train_def optimizer_zero_grad_def
      loss_backward_def optimizer_step_def print_line_def CrossEntropyLoss_def row_loss_def)

section \<open>Isolated nodes\<close>

lemma isolated_neighbors_of:
  "list_all (\<lambda>(a, b). a \<noteq> v \<and> b \<noteq> v) es \<Longrightarrow> neighbors_of es v = []"
proof (induction es)
  case Nil
  show ?case by simp
next
  case (Cons e es)
  obtain a b where e: "e = (a, b)"
    by (cases e)
  from Cons.prems e have "a \<noteq> v" "b \<noteq> v" "list_all (\<lambda>(a, b). a \<noteq> v \<and> b \<noteq> v) es"
    by simp_all
  with Cons.IH e show ?case by simp
qed

lemma add_zero_vector:
  fixes xs :: "real list"
  shows "length xs = d \<Longrightarrow> map2 (+) (replicate d 0) xs = xs"
proof (induction xs arbitrary: d)
  case Nil
  then show ?case by simp
next
  case (Cons x xs)
  then obtain d' where "d = Suc d'" and "length xs = d'"
    by (cases d) auto
  with Cons.IH show ?case by simp
qed

text \<open>
  Claim C6. In a valid graph, a node that no edge touches has no neighbors, and the
  layer's neighbor aggregate for it is the zero vector of the input width; this is the
  aggregate before the node's own embedding is folded in. Folding in and averaging
  over the one member then gives back the node's own embedding, so the row the layer
  returns for an isolated node, in evaluation mode, is the linear transform and
  activation of the node's own row.
\<close>

theorem isolated_node_zero_aggregate:
  assumes "valid_graph g" and "v < num_nodes g" and "isolated g v"
  shows "neighbors g v = []
     \<and> neighbor_aggregate h d (neighbors g v) = replicate d 0
     \<and> (length (h ! v) = in_src_feats layer
        \<longrightarrow> gcn_node layer wb g h v
            = apply_activation (activation layer) (linear (fst wb) (snd wb) (h ! v)))
     \<and> (SAGEConv_forward dropout_fn False wb layer g h r = (Inr out, r')
        \<longrightarrow> out ! v = apply_activation (activation layer) (linear (fst wb) (snd wb) (h ! v)))"
proof -
  from assms(3) have none: "neighbors g v = []"
    unfolding isolated_def neighbors_def by (rule isolated_neighbors_of)
  then have zero: "neighbor_aggregate h d (neighbors g v) = replicate d 0" for d
    by (simp add: neighbor_aggregate_def)
  have node: "gcn_node layer wb g h v
            = apply_activation (activation layer) (linear (fst wb) (snd wb) (h ! v))"
    if "length (h ! v) = in_src_feats layer"
  proof -
    have "gcn_combine (replicate (in_src_feats layer) 0) (h ! v) 0 = h ! v"
      using that by (simp add: gcn_combine_def add_zero_vector)
    then show ?thesis
      by (simp add: gcn_node_def none neighbor_aggregate_def)
  qed
  have whole: "out ! v = apply_activation (activation layer) (linear (fst wb) (snd wb) (h ! v))"
    if run: "SAGEConv_forward dropout_fn False wb layer g h r = (Inr out, r')"
  proof -
    from run have n: "length h = num_nodes g"
      and rows: "list_all (\<lambda>row. length row = in_src_feats layer) h"
      and out: "out = map (gcn_node layer wb g h) [0..<num_nodes g]"
      by (auto simp: SAGEConv_forward_def split: if_splits)
    from n assms(2) have "h ! v \<in> set h"
      by simp
    with rows have "length (h ! v) = in_src_feats layer"
      by (simp add: list_all_iff)
    then have "gcn_node layer wb g h v
               = apply_activation (activation layer) (linear (fst wb) (snd wb) (h ! v))"
      by (rule node)
    with out assms(2) show ?thesis
      by simp
  qed
  from none zero node whole show ?thesis by blast
qed

text \<open>Node 2 of a three-node graph with the single edge between 0 and 1.\<close>

theorem isolated_node_zero_aggregate_witness:
  "valid_graph \<lparr>num_nodes = 3, edges = [(0, 1)]\<rparr>
   \<and> (2 :: nat) < num_nodes \<lparr>num_nodes = 3, edges = [(0, 1)]\<rparr>
   \<and> isolated \<lparr>num_nodes = 3, edges = [(0, 1)]\<rparr> 2
   \<and> neighbor_aggregate [[1, 2], [3, 4], [5, 6]] 2 (neighbors \<lparr>num_nodes = 3, edges = [(0, 1)]\<rparr> 2)
     = [0, 0]
   \<and> SAGEConv_forward blank_dropout False (unit_weights 0 0) (SAGEConv 2 2 ''gcn'' (1 / 2) None)
        \<lparr>num_nodes = 3, edges = [(0, 1)]\<rparr> [[1, 2], [3, 4], [5, 6]] 0
     = (Inr [[2, 3], [2, 3], [5, 6]], 0)"
  using isolated_node_zero_aggregate [of "\<lparr>num_nodes = 3, edges = [(0, 1)]\<rparr>" 2 "[[1, 2], [3, 4], [5, 6]]" 2
      "SAGEConv 2 2 ''gcn'' (1 / 2) None" "unit_weights 0 0" blank_dropout 0
      "[[2, 3], [2, 3], [5, 6]]" 0]
  by (simp add: isolated_def small_defs run_defs)

end
